theory Spec2Isabelle
  imports
    Complex_Main
    "HOL-Library.AList"
    "HOL-Library.Char_ord"
    "HOL-Library.List_Lexorder"
    "HOL-Library.Sublist"
begin

section \<open>The ingestion pipeline of \<^verbatim>\<open>src/pipelines/ingest_raw.py\<close>\<close>

text \<open>
  The pipeline reads a staged JSONL file, inserts one row per record into the table
  \<^verbatim>\<open>raw_events\<close> (ignoring rows whose \<^verbatim>\<open>event_id\<close> is already there), appends one row to
  \<^verbatim>\<open>ingestion_runs\<close>, commits, and then moves the file to the archive directory.

  The Python functions are embedded as HOL functions over an explicit world: the
  file system is an association list from paths to nodes, the database is a pair of
  tables, and a connection carries the committed tables next to the tables the open
  transaction sees. Exceptions are values: every function that can raise returns a sum,
  \<open>Inl\<close> carrying the exception.

  What the libraries do is not part of the repository. The decoder \<^verbatim>\<open>json.loads\<close>, the
  encoder \<^verbatim>\<open>json.dumps\<close>, the conversion of a bound Python value to the type of its column
  (the adaptation by psycopg and the cast of the statement), the \<^verbatim>\<open>NOT NULL\<close> constraints
  of the table (its DDL is not among the sources) and whether the server can be reached
  are parameters, collected in the record \<open>env\<close>.
\<close>

subsection \<open>Python values\<close>

text \<open>A float is a rational, a NaN or an infinity (\<open>True\<close> for the negative one).\<close>

datatype pyfloat = Float rat | FloatNaN | FloatInf bool

text \<open>What \<^verbatim>\<open>json.loads\<close> returns; \<open>JNull\<close> is \<^verbatim>\<open>None\<close>. A \<^verbatim>\<open>dict\<close> is an association list.\<close>

datatype json =
    JNull
  | JBool bool
  | JInt int
  | JFloat pyfloat
  | JStr string
  | JArr "json list"
  | JObj "(string \<times> json) list"

type_synonym pydict = "(string \<times> json) list"

text \<open>Python's truth value of a decoded value, as \<^verbatim>\<open>x or {}\<close> tests it.\<close>

fun truthy :: "json \<Rightarrow> bool" where
  "truthy JNull = False"
| "truthy (JBool b) = b"
| "truthy (JInt i) = (i \<noteq> 0)"
| "truthy (JFloat (Float r)) = (r \<noteq> 0)"
| "truthy (JFloat FloatNaN) = True"
| "truthy (JFloat (FloatInf s)) = True"
| "truthy (JStr s) = (s \<noteq> [])"
| "truthy (JArr xs) = (xs \<noteq> [])"
| "truthy (JObj kvs) = (kvs \<noteq> [])"

text \<open>\<^verbatim>\<open>obj.get(k)\<close>: the value, or \<^verbatim>\<open>None\<close> when the key is missing.\<close>

definition dict_get :: "pydict \<Rightarrow> string \<Rightarrow> json" where
  "dict_get obj k = (case map_of obj k of None \<Rightarrow> JNull | Some v \<Rightarrow> v)"

text \<open>\<^verbatim>\<open>obj[k] = v\<close>.\<close>

definition dict_set :: "string \<Rightarrow> json \<Rightarrow> pydict \<Rightarrow> pydict" where
  "dict_set k v obj = AList.update k v obj"

text \<open>
  The characters \<^verbatim>\<open>str.strip()\<close> removes. A \<open>char\<close> stands for the code point of the
  same number, so the text modelled is the text of code points below 256; there
  Python's white space is 9 to 13, 28 to 32, 133 and 160.
\<close>

definition isspace :: "char \<Rightarrow> bool" where
  "isspace c =
     (let n = (of_char c :: nat)
      in (9 \<le> n \<and> n \<le> 13) \<or> (28 \<le> n \<and> n \<le> 32) \<or> n = 133 \<or> n = 160)"

definition strip :: "string \<Rightarrow> string" where
  "strip s = rev (dropWhile isspace (rev (dropWhile isspace s)))"

fun join :: "string \<Rightarrow> string list \<Rightarrow> string" where
  "join sep [] = []"
| "join sep [x] = x"
| "join sep (x # y # ys) = x @ sep @ join sep (y # ys)"

subsection \<open>Exceptions\<close>

datatype exn_class =
    FileNotFoundError
  | IsADirectoryError
  | NotADirectoryError
  | FileExistsError
  | ShutilError
  | JSONDecodeError
  | AttributeError
  | ProgrammingError
  | PgError
  | OperationalError
  | RuntimeError

text \<open>An exception is its class and its message (what \<^verbatim>\<open>str(e)\<close> gives).\<close>

datatype exn = Exn exn_class string

fun exn_kind :: "exn \<Rightarrow> exn_class" where
  "exn_kind (Exn k m) = k"

fun exn_str :: "exn \<Rightarrow> string" where
  "exn_str (Exn k m) = m"

subsection \<open>The libraries and the table declaration\<close>

record env =
  json_loads :: "string \<Rightarrow> string + json"
  json_dumps :: "json \<Rightarrow> string"
  pg_cast :: "string \<Rightarrow> json \<Rightarrow> string + json"
  pg_not_null :: "string \<Rightarrow> bool"
  pg_connect :: "string \<Rightarrow> string option"

text \<open>
  \<^item> \<open>json_loads env s\<close> is the decoded value of the text \<open>s\<close>, or the message of the
    \<^verbatim>\<open>JSONDecodeError\<close>;
  \<^item> \<open>json_dumps env v\<close> is the JSON text of \<open>v\<close>;
  \<^item> \<open>pg_cast env col v\<close> is the value stored in column \<open>col\<close> for the Python value
    \<open>v \<noteq> None\<close> bound to its placeholder, or the message of the error psycopg or the
    server raises for it;
  \<^item> \<open>pg_not_null env col\<close> tells whether column \<open>col\<close> of \<^verbatim>\<open>raw_events\<close> rejects
    \<^verbatim>\<open>NULL\<close>;
  \<^item> \<open>pg_connect env dsn\<close> is \<open>None\<close> when \<^verbatim>\<open>psycopg.connect(dsn)\<close> succeeds, and the message
    of its \<^verbatim>\<open>OperationalError\<close> otherwise.
\<close>

subsection \<open>The store\<close>

text \<open>A row of \<^verbatim>\<open>raw_events\<close>; \<open>JNull\<close> in a column is SQL's \<^verbatim>\<open>NULL\<close>.\<close>

record raw_event =
  event_id :: json
  event_time :: json
  ingestion_time :: json
  event_name :: json
  user_id :: json
  session_id :: json
  product_id :: json
  price :: json
  device :: json
  payload :: json

record FileStats =
  rows_in_file :: int
  rows_loaded :: int
  rows_deduped :: int

type_synonym datetime = int

text \<open>A row of \<^verbatim>\<open>ingestion_runs\<close>: the three counts of \<open>FileStats\<close> and six more columns.\<close>

record ingestion_run = FileStats +
  run_id :: string
  file_name :: string
  started_at :: datetime
  finished_at :: datetime
  status :: string
  error_message :: "string option"

record db =
  raw_events :: "raw_event list"
  ingestion_runs :: "ingestion_run list"

text \<open>
  A psycopg connection (autocommit off): \<open>store\<close> is what is committed, \<open>txn\<close> is what
  the open transaction sees. Statements change \<open>txn\<close> only.
\<close>

record connection =
  store :: db
  txn :: db

definition connect :: "db \<Rightarrow> connection" where
  "connect d = \<lparr>store = d, txn = d\<rparr>"

definition commit :: "connection \<Rightarrow> connection" where
  "commit c = c\<lparr>store := txn c\<rparr>"

definition rollback :: "connection \<Rightarrow> connection" where
  "rollback c = c\<lparr>txn := store c\<rparr>"

subsection \<open>\<^verbatim>\<open>INSERT_SQL\<close>\<close>

text \<open>The named placeholders of the statement, in the order of its \<^verbatim>\<open>VALUES\<close> list.\<close>

definition INSERT_COLUMNS :: "string list" where
  "INSERT_COLUMNS =
     [''event_id'', ''event_time'', ''ingestion_time'', ''event_name'', ''user_id'',
      ''session_id'', ''product_id'', ''price'', ''device'', ''payload'']"

text \<open>
  psycopg looks every placeholder up in the mapping before anything is sent; a missing
  one is a \<^verbatim>\<open>ProgrammingError\<close> that lists the missing names in sorted order.
\<close>

definition query_params :: "pydict \<Rightarrow> exn + json list" where
  "query_params obj =
     (case those (map (map_of obj) INSERT_COLUMNS) of
        Some vs \<Rightarrow> Inr vs
      | None \<Rightarrow>
          Inl (Exn ProgrammingError
                 (''query parameter missing: '' @
                  join '', '' (sort (filter (\<lambda>k. map_of obj k = None) INSERT_COLUMNS)))))"

fun first_error :: "('e + 'a) list \<Rightarrow> 'e + 'a list" where
  "first_error [] = Inr []"
| "first_error (Inl e # rs) = Inl e"
| "first_error (Inr v # rs) =
     (case first_error rs of Inl e \<Rightarrow> Inl e | Inr vs \<Rightarrow> Inr (v # vs))"

text \<open>\<^verbatim>\<open>None\<close> is sent as \<^verbatim>\<open>NULL\<close>, and a cast of \<^verbatim>\<open>NULL\<close> is \<^verbatim>\<open>NULL\<close>.\<close>

definition sql_value :: "env \<Rightarrow> string \<Rightarrow> json \<Rightarrow> string + json" where
  "sql_value env col v = (if v = JNull then Inr JNull else pg_cast env col v)"

definition null_violation :: "env \<Rightarrow> json list \<Rightarrow> string option" where
  "null_violation env vs =
     map_option fst (find (\<lambda>(col, v). v = JNull \<and> pg_not_null env col) (zip INSERT_COLUMNS vs))"

text \<open>
  The row the server builds from the ten bound values: the casts first, then the
  \<^verbatim>\<open>NOT NULL\<close> constraints. The values are positional, in the order of \<open>INSERT_COLUMNS\<close>.
\<close>

definition sql_row :: "env \<Rightarrow> json list \<Rightarrow> exn + raw_event" where
  "sql_row env params =
     (case first_error (map2 (sql_value env) INSERT_COLUMNS params) of
        Inl m \<Rightarrow> Inl (Exn PgError m)
      | Inr vs \<Rightarrow>
          (case null_violation env vs of
             Some col \<Rightarrow> Inl (Exn PgError (''null value in column '' @ col))
           | None \<Rightarrow>
               Inr \<lparr>event_id = vs ! 0, event_time = vs ! 1, ingestion_time = vs ! 2,
                    event_name = vs ! 3, user_id = vs ! 4, session_id = vs ! 5,
                    product_id = vs ! 6, price = vs ! 7, device = vs ! 8,
                    payload = vs ! 9\<rparr>))"

text \<open>
  \<^verbatim>\<open>ON CONFLICT (event_id) DO NOTHING\<close> against the uniqueness constraint on
  \<^verbatim>\<open>event_id\<close>: a row whose \<^verbatim>\<open>event_id\<close> equals that of a row the transaction sees is
  not inserted and nothing is raised. \<^verbatim>\<open>NULL\<close> equals nothing, so a row with a
  \<^verbatim>\<open>NULL\<close> id never conflicts.
\<close>

definition conflicts :: "raw_event \<Rightarrow> raw_event list \<Rightarrow> bool" where
  "conflicts r tbl = (event_id r \<noteq> JNull \<and> event_id r \<in> event_id ` set tbl)"

text \<open>\<^verbatim>\<open>cur.execute(INSERT_SQL, obj)\<close>; the number returned is \<^verbatim>\<open>cur.rowcount\<close>.\<close>

definition execute_INSERT_SQL :: "env \<Rightarrow> connection \<Rightarrow> pydict \<Rightarrow> (exn + int) \<times> connection" where
  "execute_INSERT_SQL env c obj =
     (case query_params obj of
        Inl e \<Rightarrow> (Inl e, c)
      | Inr params \<Rightarrow>
          (case sql_row env params of
             Inl e \<Rightarrow> (Inl e, c)
           | Inr r \<Rightarrow>
               if conflicts r (raw_events (txn c)) then (Inr 0, c)
               else (Inr 1, c\<lparr>txn := (txn c)\<lparr>raw_events := raw_events (txn c) @ [r]\<rparr>\<rparr>)))"

subsection \<open>\<^verbatim>\<open>load_jsonl_file\<close>\<close>

text \<open>
  Paths are lists of names relative to the working directory, without \<^verbatim>\<open>.\<close> and
  \<^verbatim>\<open>..\<close>; \<open>[]\<close> is the working directory itself. A text file is the list of its lines,
  as iterating over the open file yields them.
\<close>

type_synonym path = "string list"

datatype node = File "string list" | Dir

type_synonym fs = "(path \<times> node) list"

definition node_at :: "fs \<Rightarrow> path \<Rightarrow> node option" where
  "node_at d p = (if p = [] then Some Dir else map_of d p)"

definition is_dir :: "fs \<Rightarrow> path \<Rightarrow> bool" where
  "is_dir d p = (node_at d p = Some Dir)"

definition path_name :: "path \<Rightarrow> string" where
  "path_name p = (if p = [] then [] else last p)"

definition path_str :: "path \<Rightarrow> string" where
  "path_str p = join ''/'' p"

text \<open>
  Lines 71 to 80: decode the line, replace a missing or falsy \<^verbatim>\<open>payload\<close> by \<^verbatim>\<open>{}\<close> and
  store its JSON text, and give \<^verbatim>\<open>product_id\<close>, \<^verbatim>\<open>price\<close> and \<^verbatim>\<open>device\<close> the value
  \<^verbatim>\<open>None\<close> when they are missing. A decoded value that is not a \<^verbatim>\<open>dict\<close> has no
  \<^verbatim>\<open>get\<close>.
\<close>

definition decode_line :: "env \<Rightarrow> string \<Rightarrow> exn + pydict" where
  "decode_line env line =
     (case json_loads env line of
        Inl m \<Rightarrow> Inl (Exn JSONDecodeError m)
      | Inr (JObj obj) \<Rightarrow>
          (let payload = (if truthy (dict_get obj ''payload'') then dict_get obj ''payload''
                          else JObj []);
               obj1 = dict_set ''payload'' (JStr (json_dumps env payload)) obj;
               obj2 = dict_set ''product_id'' (dict_get obj1 ''product_id'') obj1;
               obj3 = dict_set ''price'' (dict_get obj2 ''price'') obj2;
               obj4 = dict_set ''device'' (dict_get obj3 ''device'') obj3
           in Inr obj4)
      | Inr _ \<Rightarrow> Inl (Exn AttributeError ''object has no attribute get''))"

text \<open>
  The loop of lines 65 to 83, with the two counters as arguments. An exception leaves
  the loop at once; the connection is returned as it then is.
\<close>

fun load_lines ::
  "env \<Rightarrow> string list \<Rightarrow> connection \<Rightarrow> int \<Rightarrow> int \<Rightarrow> (exn + int \<times> int) \<times> connection" where
  "load_lines env [] c n_in_file n_loaded = (Inr (n_in_file, n_loaded), c)"
| "load_lines env (l # ls) c n_in_file n_loaded =
     (let line = strip l in
      if line = [] then load_lines env ls c n_in_file n_loaded
      else
        (case decode_line env line of
           Inl e \<Rightarrow> (Inl e, c)
         | Inr obj \<Rightarrow>
             (case execute_INSERT_SQL env c obj of
                (Inl e, c') \<Rightarrow> (Inl e, c')
              | (Inr rowcount, c') \<Rightarrow>
                  load_lines env ls c' (n_in_file + 1) (n_loaded + rowcount))))"

definition load_jsonl_file ::
  "env \<Rightarrow> fs \<Rightarrow> connection \<Rightarrow> path \<Rightarrow> (exn + FileStats) \<times> connection" where
  "load_jsonl_file env d c p =
     (case node_at d p of
        None \<Rightarrow> (Inl (Exn FileNotFoundError (path_str p)), c)
      | Some Dir \<Rightarrow> (Inl (Exn IsADirectoryError (path_str p)), c)
      | Some (File ls) \<Rightarrow>
          (case load_lines env ls c 0 0 of
             (Inl e, c') \<Rightarrow> (Inl e, c')
           | (Inr (n_in_file, n_loaded), c') \<Rightarrow>
               (Inr \<lparr>rows_in_file = n_in_file, rows_loaded = n_loaded,
                     rows_deduped = n_in_file - n_loaded\<rparr>, c')))"

subsection \<open>\<^verbatim>\<open>archive_file\<close>\<close>

definition INCOMING_DIR :: path where
  "INCOMING_DIR = [''data'', ''incoming'']"

definition ARCHIVE_DIR :: path where
  "ARCHIVE_DIR = [''data'', ''archive'']"

text \<open>
  \<^verbatim>\<open>Path.mkdir(parents=True, exist_ok=True)\<close>, over the path's prefixes from the shortest
  to the path itself: a directory that exists is kept, a missing one is created, and a
  file in the way raises.
\<close>

fun mkdirs :: "path list \<Rightarrow> fs \<Rightarrow> exn + fs" where
  "mkdirs [] d = Inr d"
| "mkdirs (p # ps) d =
     (case node_at d p of
        Some Dir \<Rightarrow> mkdirs ps d
      | Some (File ls) \<Rightarrow>
          Inl (Exn (if ps = [] then FileExistsError else NotADirectoryError) (path_str p))
      | None \<Rightarrow> mkdirs ps (d @ [(p, Dir)]))"

definition mkdir_parents :: "fs \<Rightarrow> path \<Rightarrow> exn + fs" where
  "mkdir_parents d p = mkdirs (tl (prefixes p)) d"

text \<open>
  \<^verbatim>\<open>shutil.move(src, dst)\<close>. A destination that is a directory receives the source under
  the source's name, unless that name is taken there. Otherwise the source is renamed
  to the destination, and \<^bold>\<open>a file that is at the destination is replaced\<close>:
  \<^verbatim>\<open>os.rename\<close> replaces it, and where the platform's \<^verbatim>\<open>os.rename\<close> refuses, the
  fallback copies over it and removes the source. A directory is moved with all
  that is below it.
\<close>

definition shutil_move :: "fs \<Rightarrow> path \<Rightarrow> path \<Rightarrow> exn + fs" where
  "shutil_move d src dst =
     (if is_dir d dst \<and> src = dst then Inr d
      else
        (let real_dst = (if is_dir d dst then dst @ [path_name src] else dst) in
         if is_dir d dst \<and> node_at d real_dst \<noteq> None then
           Inl (Exn ShutilError (''Destination path already exists: '' @ path_str real_dst))
         else
           (case node_at d src of
              None \<Rightarrow> Inl (Exn FileNotFoundError (path_str src))
            | Some (File ls) \<Rightarrow>
                (case node_at d (butlast real_dst) of
                   None \<Rightarrow> Inl (Exn FileNotFoundError (path_str real_dst))
                 | Some (File ls') \<Rightarrow> Inl (Exn NotADirectoryError (path_str real_dst))
                 | Some Dir \<Rightarrow> Inr (AList.update real_dst (File ls) (AList.delete src d)))
            | Some Dir \<Rightarrow>
                if prefix src dst then
                  Inl (Exn ShutilError ''Cannot move a directory into itself'')
                else if node_at d real_dst \<noteq> None then
                  Inl (Exn FileExistsError (path_str real_dst))
                else
                  (case mkdir_parents d (butlast real_dst) of
                     Inl e \<Rightarrow> Inl e
                   | Inr d' \<Rightarrow>
                       Inr (map (\<lambda>(p, n). if prefix src p
                                           then (real_dst @ drop (length src) p, n)
                                           else (p, n)) d')))))"

text \<open>\<^verbatim>\<open>ARCHIVE_DIR / path.name\<close>; joining the empty name gives the directory itself.\<close>

definition archive_dest :: "path \<Rightarrow> path" where
  "archive_dest p = ARCHIVE_DIR @ (if path_name p = [] then [] else [path_name p])"

definition archive_file :: "fs \<Rightarrow> path \<Rightarrow> (exn + path) \<times> fs" where
  "archive_file d p =
     (case mkdir_parents d ARCHIVE_DIR of
        Inl e \<Rightarrow> (Inl e, d)
      | Inr d1 \<Rightarrow>
          (case shutil_move d1 p (archive_dest p) of
             Inl e \<Rightarrow> (Inl e, d1)
           | Inr d2 \<Rightarrow> (Inr (archive_dest p), d2)))"

subsection \<open>\<^verbatim>\<open>insert_ingestion_run\<close>\<close>

text \<open>The three counts are cast to \<^verbatim>\<open>int\<close>, PostgreSQL's 32-bit integer.\<close>

definition int4 :: "int \<Rightarrow> bool" where
  "int4 n = (- 2147483648 \<le> n \<and> n \<le> 2147483647)"

definition insert_ingestion_run ::
  "connection \<Rightarrow> string \<Rightarrow> string \<Rightarrow> datetime \<Rightarrow> datetime \<Rightarrow> FileStats \<Rightarrow> string \<Rightarrow>
   string option \<Rightarrow> (exn + unit) \<times> connection" where
  "insert_ingestion_run c rid fname started finished stats st err =
     (if int4 (rows_in_file stats) \<and> int4 (rows_loaded stats) \<and> int4 (rows_deduped stats) then
        (Inr (),
         c\<lparr>txn := (txn c)\<lparr>ingestion_runs := ingestion_runs (txn c) @
             [\<lparr>rows_in_file = rows_in_file stats, rows_loaded = rows_loaded stats,
               rows_deduped = rows_deduped stats, run_id = rid, file_name = fname,
               started_at = started, finished_at = finished, status = st,
               error_message = err\<rparr>]\<rparr>\<rparr>)
      else (Inl (Exn PgError ''integer out of range''), c))"

subsection \<open>\<^verbatim>\<open>ingest_one_file\<close>\<close>

record world =
  disk :: fs
  database :: db

text \<open>
  What \<^verbatim>\<open>uuid.uuid4()\<close> and the two calls of \<^verbatim>\<open>utc_now()\<close> return in one call of
  \<^verbatim>\<open>ingest_one_file\<close>.
\<close>

record attempt =
  new_run_id :: string
  t_started :: datetime
  t_finished :: datetime

text \<open>
  Lines 137 to 143, the block \<^verbatim>\<open>with psycopg.connect(dsn) as conn\<close>: load the file, insert
  the run record, commit. An exception leaves the block through the connection's exit,
  which rolls the transaction back. The database returned is the committed one.
\<close>

definition load_and_record ::
  "env \<Rightarrow> string \<Rightarrow> path \<Rightarrow> attempt \<Rightarrow> fs \<Rightarrow> db \<Rightarrow> (exn + FileStats) \<times> db" where
  "load_and_record env dsn p a d b =
     (case pg_connect env dsn of
        Some m \<Rightarrow> (Inl (Exn OperationalError m), b)
      | None \<Rightarrow>
          (case load_jsonl_file env d (connect b) p of
             (Inl e, c1) \<Rightarrow> (Inl e, store (rollback c1))
           | (Inr stats, c1) \<Rightarrow>
               (case insert_ingestion_run c1 (new_run_id a) (path_name p) (t_started a)
                       (t_finished a) stats ''success'' None of
                  (Inl e, c2) \<Rightarrow> (Inl e, store (rollback c2))
                | (Inr u, c2) \<Rightarrow> (Inr stats, store (commit c2)))))"

text \<open>The \<^verbatim>\<open>RuntimeError\<close> of line 152.\<close>

definition ingest_failure :: "path \<Rightarrow> exn \<Rightarrow> exn" where
  "ingest_failure p e = Exn RuntimeError (''Failed to ingest '' @ path_name p @ '': '' @ exn_str e)"

text \<open>What the summary line of lines 146 to 149 prints: name, counts and destination.\<close>

record summary =
  s_name :: string
  s_stats :: FileStats
  s_archived :: path

definition ingest_one_file ::
  "env \<Rightarrow> string \<Rightarrow> path \<Rightarrow> attempt \<Rightarrow> world \<Rightarrow> (exn + summary) \<times> world" where
  "ingest_one_file env dsn p a w =
     (case load_and_record env dsn p a (disk w) (database w) of
        (Inl e, b) \<Rightarrow> (Inl (ingest_failure p e), w\<lparr>database := b\<rparr>)
      | (Inr stats, b) \<Rightarrow>
          (case archive_file (disk w) p of
             (Inl e, d) \<Rightarrow> (Inl (ingest_failure p e), \<lparr>disk = d, database = b\<rparr>)
           | (Inr archived, d) \<Rightarrow>
               (Inr \<lparr>s_name = path_name p, s_stats = stats, s_archived = archived\<rparr>,
                \<lparr>disk = d, database = b\<rparr>)))"

text \<open>
  The world a process leaves behind that is killed after line 143 and before the move of
  line 91: the transaction block has run, the file has not been moved.
\<close>

definition killed_before_archive ::
  "env \<Rightarrow> string \<Rightarrow> path \<Rightarrow> attempt \<Rightarrow> world \<Rightarrow> world" where
  "killed_before_archive env dsn p a w =
     w\<lparr>database := snd (load_and_record env dsn p a (disk w) (database w))\<rparr>"

subsection \<open>\<^verbatim>\<open>main\<close>\<close>

definition get_dsn :: "string option \<Rightarrow> exn + string" where
  "get_dsn pg_dsn =
     (case pg_dsn of
        None \<Rightarrow> Inl (Exn RuntimeError ''PG_DSN is not set. Put it into .env (see README).'')
      | Some dsn \<Rightarrow>
          if dsn = [] then
            Inl (Exn RuntimeError ''PG_DSN is not set. Put it into .env (see README).'')
          else Inr dsn)"

text \<open>\<^verbatim>\<open>sorted(INCOMING_DIR.glob("*.jsonl"))\<close>: the entries of the staging directory whose
  name ends in \<^verbatim>\<open>.jsonl\<close>, in the order of their paths.\<close>

definition staged_files :: "fs \<Rightarrow> path list" where
  "staged_files d =
     sort (remdups (filter (\<lambda>p. p \<noteq> [] \<and> butlast p = INCOMING_DIR \<and> suffix ''.jsonl'' (last p))
                           (map fst d)))"

text \<open>The loop of lines 162 and 163; nothing catches what \<^verbatim>\<open>ingest_one_file\<close> raises.\<close>

fun ingest_files ::
  "env \<Rightarrow> string \<Rightarrow> (path \<Rightarrow> attempt) \<Rightarrow> path list \<Rightarrow> world \<Rightarrow> (exn + summary list) \<times> world" where
  "ingest_files env dsn att [] w = (Inr [], w)"
| "ingest_files env dsn att (p # ps) w =
     (case ingest_one_file env dsn p (att p) w of
        (Inl e, w') \<Rightarrow> (Inl e, w')
      | (Inr s, w') \<Rightarrow>
          (case ingest_files env dsn att ps w' of
             (Inl e, w'') \<Rightarrow> (Inl e, w'')
           | (Inr ss, w'') \<Rightarrow> (Inr (s # ss), w'')))"

text \<open>\<^verbatim>\<open>main\<close>; the empty list of summaries stands for the line "No new files".\<close>

definition main :: "env \<Rightarrow> string option \<Rightarrow> (path \<Rightarrow> attempt) \<Rightarrow> world \<Rightarrow> (exn + summary list) \<times> world" where
  "main env pg_dsn att w =
     (case get_dsn pg_dsn of
        Inl e \<Rightarrow> (Inl e, w)
      | Inr dsn \<Rightarrow>
          (let files = staged_files (disk w) in
           if files = [] then (Inr [], w)
           else ingest_files env dsn att files w))"

section \<open>Notions used in the statements\<close>

text \<open>
  The row that one non-blank, stripped line asks the server to insert: the body of the
  loop up to the conflict check. It is \<open>Inl\<close> for a line that cannot be decoded, is not an
  object, lacks a placeholder of the statement, or holds a value the store rejects.
\<close>

definition line_row :: "env \<Rightarrow> string \<Rightarrow> exn + raw_event" where
  "line_row env line =
     (case decode_line env line of
        Inl e \<Rightarrow> Inl e
      | Inr obj \<Rightarrow> (case query_params obj of Inl e \<Rightarrow> Inl e | Inr params \<Rightarrow> sql_row env params))"

definition add_row :: "raw_event \<Rightarrow> connection \<Rightarrow> connection" where
  "add_row r c = c\<lparr>txn := (txn c)\<lparr>raw_events := raw_events (txn c) @ [r]\<rparr>\<rparr>"

text \<open>The records of a file: its stripped lines that are not blank.\<close>

definition records :: "string list \<Rightarrow> string list" where
  "records ls = filter (\<lambda>l. l \<noteq> []) (map strip ls)"

text \<open>The run record that line 140 inserts for an attempt.\<close>

abbreviation success_run :: "attempt \<Rightarrow> path \<Rightarrow> FileStats \<Rightarrow> ingestion_run" where
  "success_run a p stats \<equiv>
     \<lparr>rows_in_file = rows_in_file stats, rows_loaded = rows_loaded stats,
      rows_deduped = rows_deduped stats, run_id = new_run_id a, file_name = path_name p,
      started_at = t_started a, finished_at = t_finished a, status = ''success'',
      error_message = None\<rparr>"

definition is_file :: "fs \<Rightarrow> path \<Rightarrow> bool" where
  "is_file d p = (case node_at d p of Some (File ls) \<Rightarrow> True | _ \<Rightarrow> False)"

text \<open>
  The file system lets \<open>p\<close> be archived: \<open>p\<close> has a name, neither \<^verbatim>\<open>data\<close> nor
  \<^verbatim>\<open>data/archive\<close> is a file, and the destination is not a directory.
\<close>

definition can_archive :: "fs \<Rightarrow> path \<Rightarrow> bool" where
  "can_archive d p =
     (path_name p \<noteq> [] \<and> \<not> is_file d [''data''] \<and> \<not> is_file d ARCHIVE_DIR \<and>
      \<not> is_dir d (archive_dest p))"

text \<open>The placeholders that line 78 to 80 do not fill in when the record lacks them.\<close>

definition REQUIRED :: "string list" where
  "REQUIRED = [''event_id'', ''event_time'', ''ingestion_time'', ''event_name'', ''user_id'',
               ''session_id'']"

text \<open>
  The values that lines 74 to 82 bind to the ten placeholders, in the order of the
  statement, for a decoded object that has the six keys of \<open>REQUIRED\<close>: each of the six as
  it is, \<^verbatim>\<open>obj.get\<close> of \<^verbatim>\<open>product_id\<close>, \<^verbatim>\<open>price\<close> and \<^verbatim>\<open>device\<close> (so \<^verbatim>\<open>None\<close> for one
  that is missing), and the JSON text of the payload.
\<close>

definition bound_values :: "env \<Rightarrow> pydict \<Rightarrow> json list" where
  "bound_values env obj =
     map (dict_get obj) REQUIRED @
     [dict_get obj ''product_id'', dict_get obj ''price'', dict_get obj ''device'',
      JStr (json_dumps env (if truthy (dict_get obj ''payload'') then dict_get obj ''payload''
                            else JObj []))]"

section \<open>Sample batches\<close>

text \<open>The line of a record with event id \<open>...0a\<close>, and what \<^verbatim>\<open>json.loads\<close> returns for it.\<close>

definition line_A :: string where
  \<open>line_A =
     ''{"event_id": "00000000-0000-4000-8000-00000000000a", "event_time": "2026-02-18T12:00:00+00:00", "ingestion_time": "2026-02-18T12:00:05+00:00", "event_name": "open", "user_id": 1, "session_id": "00000000-0000-4000-8000-0000000000f1", "device": "web"}''\<close>

definition obj_A :: pydict where
  "obj_A =
     [(''event_id'', JStr ''00000000-0000-4000-8000-00000000000a''),
      (''event_time'', JStr ''2026-02-18T12:00:00+00:00''),
      (''ingestion_time'', JStr ''2026-02-18T12:00:05+00:00''),
      (''event_name'', JStr ''open''),
      (''user_id'', JInt 1),
      (''session_id'', JStr ''00000000-0000-4000-8000-0000000000f1''),
      (''device'', JStr ''web'')]"

text \<open>The line of a record with event id \<open>...0b\<close>, and what \<^verbatim>\<open>json.loads\<close> returns for it.\<close>

definition line_B :: string where
  \<open>line_B =
     ''{"event_id": "00000000-0000-4000-8000-00000000000b", "event_time": "2026-02-18T12:00:01+00:00", "ingestion_time": "2026-02-18T12:00:05+00:00", "event_name": "open", "user_id": 2, "session_id": "00000000-0000-4000-8000-0000000000f2", "device": "ios"}''\<close>

definition obj_B :: pydict where
  "obj_B =
     [(''event_id'', JStr ''00000000-0000-4000-8000-00000000000b''),
      (''event_time'', JStr ''2026-02-18T12:00:01+00:00''),
      (''ingestion_time'', JStr ''2026-02-18T12:00:05+00:00''),
      (''event_name'', JStr ''open''),
      (''user_id'', JInt 2),
      (''session_id'', JStr ''00000000-0000-4000-8000-0000000000f2''),
      (''device'', JStr ''ios'')]"

text \<open>The line of a second record with event id \<open>...0a\<close> and other field values, and what \<^verbatim>\<open>json.loads\<close> returns for it.\<close>

definition line_A2 :: string where
  \<open>line_A2 =
     ''{"event_id": "00000000-0000-4000-8000-00000000000a", "event_time": "2026-02-18T12:00:09+00:00", "ingestion_time": "2026-02-18T12:00:05+00:00", "event_name": "view", "user_id": 1, "session_id": "00000000-0000-4000-8000-0000000000f1", "device": "web"}''\<close>

definition obj_A2 :: pydict where
  "obj_A2 =
     [(''event_id'', JStr ''00000000-0000-4000-8000-00000000000a''),
      (''event_time'', JStr ''2026-02-18T12:00:09+00:00''),
      (''ingestion_time'', JStr ''2026-02-18T12:00:05+00:00''),
      (''event_name'', JStr ''view''),
      (''user_id'', JInt 1),
      (''session_id'', JStr ''00000000-0000-4000-8000-0000000000f1''),
      (''device'', JStr ''web'')]"

text \<open>The line of a record without \<^verbatim>\<open>device\<close>, and what \<^verbatim>\<open>json.loads\<close> returns for it.\<close>

definition line_no_device :: string where
  \<open>line_no_device =
     ''{"event_id": "00000000-0000-4000-8000-00000000000c", "event_time": "2026-02-18T12:00:00+00:00", "ingestion_time": "2026-02-18T12:00:05+00:00", "event_name": "open", "user_id": 1, "session_id": "00000000-0000-4000-8000-0000000000f1"}''\<close>

definition obj_no_device :: pydict where
  "obj_no_device =
     [(''event_id'', JStr ''00000000-0000-4000-8000-00000000000c''),
      (''event_time'', JStr ''2026-02-18T12:00:00+00:00''),
      (''ingestion_time'', JStr ''2026-02-18T12:00:05+00:00''),
      (''event_name'', JStr ''open''),
      (''user_id'', JInt 1),
      (''session_id'', JStr ''00000000-0000-4000-8000-0000000000f1'')]"

text \<open>The line of a record without \<^verbatim>\<open>user_id\<close>, and what \<^verbatim>\<open>json.loads\<close> returns for it.\<close>

definition line_no_user :: string where
  \<open>line_no_user =
     ''{"event_id": "00000000-0000-4000-8000-00000000000c", "event_time": "2026-02-18T12:00:00+00:00", "ingestion_time": "2026-02-18T12:00:05+00:00", "event_name": "open", "session_id": "00000000-0000-4000-8000-0000000000f1", "device": "web"}''\<close>

definition obj_no_user :: pydict where
  "obj_no_user =
     [(''event_id'', JStr ''00000000-0000-4000-8000-00000000000c''),
      (''event_time'', JStr ''2026-02-18T12:00:00+00:00''),
      (''ingestion_time'', JStr ''2026-02-18T12:00:05+00:00''),
      (''event_name'', JStr ''open''),
      (''session_id'', JStr ''00000000-0000-4000-8000-0000000000f1''),
      (''device'', JStr ''web'')]"

text \<open>The line of a record whose \<^verbatim>\<open>user_id\<close> is not a number, and what \<^verbatim>\<open>json.loads\<close> returns for it.\<close>

definition line_bad_user :: string where
  \<open>line_bad_user =
     ''{"event_id": "00000000-0000-4000-8000-00000000000c", "event_time": "2026-02-18T12:00:00+00:00", "ingestion_time": "2026-02-18T12:00:05+00:00", "event_name": "open", "user_id": "abc", "session_id": "00000000-0000-4000-8000-0000000000f1", "device": "web"}''\<close>

definition obj_bad_user :: pydict where
  "obj_bad_user =
     [(''event_id'', JStr ''00000000-0000-4000-8000-00000000000c''),
      (''event_time'', JStr ''2026-02-18T12:00:00+00:00''),
      (''ingestion_time'', JStr ''2026-02-18T12:00:05+00:00''),
      (''event_name'', JStr ''open''),
      (''user_id'', JStr ''abc''),
      (''session_id'', JStr ''00000000-0000-4000-8000-0000000000f1''),
      (''device'', JStr ''web'')]"

text \<open>The line of a record whose \<^verbatim>\<open>event_id\<close> is \<^verbatim>\<open>null\<close>, and what \<^verbatim>\<open>json.loads\<close> returns for it.\<close>

definition line_null_id :: string where
  \<open>line_null_id =
     ''{"event_id": null, "event_time": "2026-02-18T12:00:00+00:00", "ingestion_time": "2026-02-18T12:00:05+00:00", "event_name": "open", "user_id": 1, "session_id": "00000000-0000-4000-8000-0000000000f1", "device": "web"}''\<close>

definition obj_null_id :: pydict where
  "obj_null_id =
     [(''event_id'', JNull),
      (''event_time'', JStr ''2026-02-18T12:00:00+00:00''),
      (''ingestion_time'', JStr ''2026-02-18T12:00:05+00:00''),
      (''event_name'', JStr ''open''),
      (''user_id'', JInt 1),
      (''session_id'', JStr ''00000000-0000-4000-8000-0000000000f1''),
      (''device'', JStr ''web'')]"

definition line_bad :: string where
  "line_bad = ''not json''"

text \<open>\<^verbatim>\<open>json.loads\<close> on the sample lines; any other text is taken as undecodable.\<close>

definition sample_loads :: "string \<Rightarrow> string + json" where
  "sample_loads s =
     (if s = line_A then Inr (JObj obj_A)
      else if s = line_B then Inr (JObj obj_B)
      else if s = line_A2 then Inr (JObj obj_A2)
      else if s = line_no_device then Inr (JObj obj_no_device)
      else if s = line_no_user then Inr (JObj obj_no_user)
      else if s = line_bad_user then Inr (JObj obj_bad_user)
      else if s = line_null_id then Inr (JObj obj_null_id)
      else Inl ''Expecting value: line 1 column 1 (char 0)'')"

text \<open>
  A server whose table declares only \<^verbatim>\<open>event_id\<close> as \<^verbatim>\<open>NOT NULL\<close>, that stores the
  sample values as they are and rejects the text \<^verbatim>\<open>abc\<close> as a \<^verbatim>\<open>bigint\<close>.
\<close>

definition sample_env :: env where
  \<open>sample_env =
     \<lparr>json_loads = sample_loads,
      json_dumps = (\<lambda>v. if v = JObj [] then ''{}'' else ''null''),
      pg_cast = (\<lambda>col v. if col = ''user_id'' \<and> v = JStr ''abc''
                           then Inl ''invalid input syntax for type bigint''
                           else Inr v),
      pg_not_null = (\<lambda>col. col = ''event_id''),
      pg_connect = (\<lambda>dsn. None)\<rparr>\<close>

definition nl :: string where
  "nl = [CHR 0x0A]"

definition batch_1 :: path where
  "batch_1 = INCOMING_DIR @ [''events_1.jsonl'']"

definition batch_2 :: path where
  "batch_2 = INCOMING_DIR @ [''events_2.jsonl'']"

text \<open>A staging directory that holds one batch, with the given lines.\<close>

definition staged :: "string list \<Rightarrow> fs" where
  "staged ls = [([''data''], Dir), (INCOMING_DIR, Dir), (batch_1, File ls)]"

definition empty_db :: db where
  "empty_db = \<lparr>raw_events = [], ingestion_runs = []\<rparr>"

definition attempt_1 :: attempt where
  "attempt_1 =
     \<lparr>new_run_id = ''00000000-0000-4000-8000-0000000000e1'', t_started = 100, t_finished = 101\<rparr>"

definition attempt_2 :: attempt where
  "attempt_2 =
     \<lparr>new_run_id = ''00000000-0000-4000-8000-0000000000e2'', t_started = 200, t_finished = 201\<rparr>"

text \<open>The rows of the first three sample records.\<close>

definition row_A :: raw_event where
  "row_A =
     \<lparr>event_id = JStr ''00000000-0000-4000-8000-00000000000a'',
      event_time = JStr ''2026-02-18T12:00:00+00:00'',
      ingestion_time = JStr ''2026-02-18T12:00:05+00:00'',
      event_name = JStr ''open'', user_id = JInt 1,
      session_id = JStr ''00000000-0000-4000-8000-0000000000f1'',
      product_id = JNull, price = JNull, device = JStr ''web'', payload = JStr ''{}''\<rparr>"

definition row_B :: raw_event where
  "row_B =
     \<lparr>event_id = JStr ''00000000-0000-4000-8000-00000000000b'',
      event_time = JStr ''2026-02-18T12:00:01+00:00'',
      ingestion_time = JStr ''2026-02-18T12:00:05+00:00'',
      event_name = JStr ''open'', user_id = JInt 2,
      session_id = JStr ''00000000-0000-4000-8000-0000000000f2'',
      product_id = JNull, price = JNull, device = JStr ''ios'', payload = JStr ''{}''\<rparr>"

definition row_A2 :: raw_event where
  "row_A2 =
     \<lparr>event_id = JStr ''00000000-0000-4000-8000-00000000000a'',
      event_time = JStr ''2026-02-18T12:00:09+00:00'',
      ingestion_time = JStr ''2026-02-18T12:00:05+00:00'',
      event_name = JStr ''view'', user_id = JInt 1,
      session_id = JStr ''00000000-0000-4000-8000-0000000000f1'',
      product_id = JNull, price = JNull, device = JStr ''web'', payload = JStr ''{}''\<rparr>"

definition row_no_device :: raw_event where
  "row_no_device =
     \<lparr>event_id = JStr ''00000000-0000-4000-8000-00000000000c'',
      event_time = JStr ''2026-02-18T12:00:00+00:00'',
      ingestion_time = JStr ''2026-02-18T12:00:05+00:00'',
      event_name = JStr ''open'', user_id = JInt 1,
      session_id = JStr ''00000000-0000-4000-8000-0000000000f1'',
      product_id = JNull, price = JNull, device = JNull, payload = JStr ''{}''\<rparr>"

text \<open>The batch of ids A, B, A, a batch with an undecodable line, and a blank batch.\<close>

definition batch_ABA :: "string list" where
  "batch_ABA = [line_A @ nl, line_B @ nl, line_A2 @ nl]"

definition batch_bad :: "string list" where
  "batch_bad = [line_A @ nl, line_bad @ nl, line_B @ nl]"

definition batch_blank :: "string list" where
  "batch_blank = [nl, ''   '' @ nl, []]"

definition stats_ABA :: FileStats where
  "stats_ABA = \<lparr>rows_in_file = 3, rows_loaded = 2, rows_deduped = 1\<rparr>"

text \<open>The store after the batch A, B, A has been loaded into the empty store.\<close>

definition db_ABA :: db where
  "db_ABA = \<lparr>raw_events = [row_A, row_B], ingestion_runs = [success_run attempt_1 batch_1 stats_ABA]\<rparr>"

text \<open>Two staged batches, the first of them undecodable.\<close>

definition staged_two :: fs where
  "staged_two =
     [([''data''], Dir), (INCOMING_DIR, Dir), (batch_2, File [line_B @ nl]),
      (batch_1, File [line_bad @ nl])]"

text \<open>A staged batch whose name is already taken in the archive.\<close>

definition staged_dup :: fs where
  "staged_dup =
     [([''data''], Dir), (INCOMING_DIR, Dir), (ARCHIVE_DIR, Dir),
      (batch_1, File [line_B @ nl]), (ARCHIVE_DIR @ [''events_1.jsonl''], File [line_A @ nl])]"

text \<open>The attempts of a run of \<^verbatim>\<open>main\<close> over the two batches.\<close>

definition sample_clock :: "path \<Rightarrow> attempt" where
  "sample_clock p = (if p = batch_1 then attempt_1 else attempt_2)"

definition world_two :: world where
  "world_two = \<lparr>disk = staged_two, database = empty_db\<rparr>"

definition world_ABA :: world where
  "world_ABA = \<lparr>disk = staged batch_ABA, database = empty_db\<rparr>"

definition world_bad :: world where
  "world_bad = \<lparr>disk = staged batch_bad, database = empty_db\<rparr>"

definition world_blank :: world where
  "world_blank = \<lparr>disk = staged batch_blank, database = empty_db\<rparr>"

definition stats_0 :: FileStats where
  "stats_0 = \<lparr>rows_in_file = 0, rows_loaded = 0, rows_deduped = 0\<rparr>"

definition conn_ABA :: connection where
  "conn_ABA = add_row row_B (add_row row_A (connect empty_db))"

section \<open>Lemmas\<close>

subsection \<open>The loop, one record at a time\<close>

text \<open>
  One turn of the loop in terms of \<open>line_row\<close>. From here on the loop is unfolded by this
  equation only.
\<close>

lemma load_lines_Cons_row:
  "load_lines env (l # ls) c a b =
     (if strip l = [] then load_lines env ls c a b
      else (case line_row env (strip l) of
              Inl e \<Rightarrow> (Inl e, c)
            | Inr r \<Rightarrow>
                if conflicts r (raw_events (txn c)) then load_lines env ls c (a + 1) b
                else load_lines env ls (add_row r c) (a + 1) (b + 1)))"
  by (simp add: Let_def line_row_def execute_INSERT_SQL_def add_row_def split: sum.splits)

declare load_lines.simps(2) [simp del]

lemma store_add_row [simp]: "store (add_row r c) = store c"
  by (simp add: add_row_def)

lemma txn_add_row [simp]:
  "raw_events (txn (add_row r c)) = raw_events (txn c) @ [r]"
  "ingestion_runs (txn (add_row r c)) = ingestion_runs (txn c)"
  by (simp_all add: add_row_def)

text \<open>Statements change what the transaction sees, never what is committed.\<close>

lemma load_lines_store: "store (snd (load_lines env ls c a b)) = store c"
proof (induction ls arbitrary: c a b)
  case Nil
  show ?case by simp
next
  case (Cons l ls)
  show ?case
    unfolding load_lines_Cons_row
    by (simp add: Cons.IH split: sum.splits)
qed

lemma load_lines_store_eq: "load_lines env ls c a b = (r, c') \<Longrightarrow> store c' = store c"
  using load_lines_store [of env ls c a b] by simp

text \<open>
  The first counter grows by the number of records, the second by at most as much, and
  by exactly the number of rows added.
\<close>

lemma load_lines_counts:
  "load_lines env ls c a b = (Inr (a', b'), c') \<Longrightarrow>
     a' = a + int (length (records ls)) \<and> b \<le> b' \<and> b' - b \<le> a' - a"
proof (induction ls arbitrary: c a b)
  case Nil
  then show ?case by (simp add: records_def)
next
  case (Cons l ls)
  show ?case
  proof (cases "strip l = []")
    case True
    with Cons.prems have "load_lines env ls c a b = (Inr (a', b'), c')"
      by (simp add: load_lines_Cons_row)
    from Cons.IH [OF this] True show ?thesis by (simp add: records_def)
  next
    case False
    show ?thesis
    proof (cases "line_row env (strip l)")
      case (Inl e)
      with Cons.prems False show ?thesis by (simp add: load_lines_Cons_row)
    next
      case (Inr r)
      show ?thesis
      proof (cases "conflicts r (raw_events (txn c))")
        case True
        with Cons.prems False Inr have "load_lines env ls c (a + 1) b = (Inr (a', b'), c')"
          by (simp add: load_lines_Cons_row)
        from Cons.IH [OF this] False show ?thesis by (simp add: records_def)
      next
        case nc: False
        with Cons.prems False Inr
        have "load_lines env ls (add_row r c) (a + 1) (b + 1) = (Inr (a', b'), c')"
          by (simp add: load_lines_Cons_row)
        from Cons.IH [OF this] False show ?thesis by (simp add: records_def)
      qed
    qed
  qed
qed

lemma load_lines_new_rows:
  "load_lines env ls c a b = (Inr (a', b'), c') \<Longrightarrow>
     int (length (raw_events (txn c'))) = int (length (raw_events (txn c))) + (b' - b)"
proof (induction ls arbitrary: c a b)
  case Nil
  then show ?case by simp
next
  case (Cons l ls)
  show ?case
  proof (cases "strip l = []")
    case True
    with Cons.prems have "load_lines env ls c a b = (Inr (a', b'), c')"
      by (simp add: load_lines_Cons_row)
    from Cons.IH [OF this] show ?thesis .
  next
    case False
    show ?thesis
    proof (cases "line_row env (strip l)")
      case (Inl e)
      with Cons.prems False show ?thesis by (simp add: load_lines_Cons_row)
    next
      case (Inr r)
      show ?thesis
      proof (cases "conflicts r (raw_events (txn c))")
        case True
        with Cons.prems False Inr have "load_lines env ls c (a + 1) b = (Inr (a', b'), c')"
          by (simp add: load_lines_Cons_row)
        from Cons.IH [OF this] show ?thesis .
      next
        case nc: False
        with Cons.prems False Inr
        have "load_lines env ls (add_row r c) (a + 1) (b + 1) = (Inr (a', b'), c')"
          by (simp add: load_lines_Cons_row)
        from Cons.IH [OF this] show ?thesis by simp
      qed
    qed
  qed
qed

text \<open>
  After a successful load every record has a row, the id of that row is in the table,
  the rows that were there come first and unchanged, and the run records are as before.
\<close>

lemma load_lines_rows:
  "load_lines env ls c a b = (Inr res, c') \<Longrightarrow>
     (\<forall>l \<in> set (records ls). \<exists>r. line_row env l = Inr r \<and>
          event_id r \<in> event_id ` set (raw_events (txn c'))) \<and>
     prefix (raw_events (txn c)) (raw_events (txn c')) \<and>
     ingestion_runs (txn c') = ingestion_runs (txn c)"
proof (induction ls arbitrary: c a b)
  case Nil
  then show ?case by (simp add: records_def)
next
  case (Cons l ls)
  show ?case
  proof (cases "strip l = []")
    case True
    with Cons.prems have "load_lines env ls c a b = (Inr res, c')"
      by (simp add: load_lines_Cons_row)
    from Cons.IH [OF this] True show ?thesis by (simp add: records_def)
  next
    case False
    show ?thesis
    proof (cases "line_row env (strip l)")
      case (Inl e)
      with Cons.prems False show ?thesis by (simp add: load_lines_Cons_row)
    next
      case (Inr r)
      show ?thesis
      proof (cases "conflicts r (raw_events (txn c))")
        case True
        with Cons.prems False Inr have run: "load_lines env ls c (a + 1) b = (Inr res, c')"
          by (simp add: load_lines_Cons_row)
        note ih = Cons.IH [OF run]
        from ih have "set (raw_events (txn c)) \<subseteq> set (raw_events (txn c'))"
          by (auto simp: prefix_def)
        with True have "event_id r \<in> event_id ` set (raw_events (txn c'))"
          by (auto simp: conflicts_def)
        with ih False Inr show ?thesis by (simp add: records_def)
      next
        case nc: False
        with Cons.prems False Inr
        have run: "load_lines env ls (add_row r c) (a + 1) (b + 1) = (Inr res, c')"
          by (simp add: load_lines_Cons_row)
        note ih = Cons.IH [OF run]
        from ih have pre: "prefix (raw_events (txn c) @ [r]) (raw_events (txn c'))"
          by simp
        then have "r \<in> set (raw_events (txn c'))"
          by (auto simp: prefix_def)
        then have "event_id r \<in> event_id ` set (raw_events (txn c'))"
          by blast
        moreover from pre have "prefix (raw_events (txn c)) (raw_events (txn c'))"
          by (auto simp: prefix_def)
        ultimately show ?thesis using ih False Inr by (simp add: records_def)
      qed
    qed
  qed
qed

text \<open>If every record conflicts with a row of the table, nothing is inserted.\<close>

lemma load_lines_reload:
  "\<forall>l \<in> set (records ls). \<exists>r. line_row env l = Inr r \<and> conflicts r (raw_events (txn c)) \<Longrightarrow>
     load_lines env ls c a b = (Inr (a + int (length (records ls)), b), c)"
proof (induction ls arbitrary: a)
  case Nil
  show ?case by (simp add: records_def)
next
  case (Cons l ls)
  show ?case
  proof (cases "strip l = []")
    case True
    with Cons show ?thesis by (simp add: load_lines_Cons_row records_def)
  next
    case False
    with Cons.prems obtain r where "line_row env (strip l) = Inr r"
      "conflicts r (raw_events (txn c))"
      by (auto simp: records_def)
    moreover from Cons.prems
    have "\<forall>l \<in> set (records ls). \<exists>r. line_row env l = Inr r \<and> conflicts r (raw_events (txn c))"
      by (simp add: records_def)
    ultimately show ?thesis
      using False Cons.IH [of "a + 1"] by (simp add: load_lines_Cons_row records_def)
  qed
qed

text \<open>One record without a row makes the loop raise.\<close>

lemma load_lines_invalid:
  "\<exists>l \<in> set (records ls). isl (line_row env l) \<Longrightarrow> isl (fst (load_lines env ls c a b))"
proof (induction ls arbitrary: c a b)
  case Nil
  then show ?case by (simp add: records_def)
next
  case (Cons l ls)
  show ?case
  proof (cases "strip l \<noteq> [] \<and> isl (line_row env (strip l))")
    case True
    then show ?thesis by (auto simp: load_lines_Cons_row isl_def)
  next
    case False
    with Cons.prems have "\<exists>l \<in> set (records ls). isl (line_row env l)"
      by (auto simp: records_def split: if_splits)
    then have "\<And>c a b. isl (fst (load_lines env ls c a b))"
      by (rule Cons.IH)
    then show ?thesis
      by (simp add: load_lines_Cons_row split: sum.splits)
  qed
qed

text \<open>Blank lines are passed over.\<close>

lemma load_lines_skip_blank:
  "load_lines env ls c a b = load_lines env (filter (\<lambda>l. strip l \<noteq> []) ls) c a b"
proof (induction ls arbitrary: c a b)
  case Nil
  show ?case by simp
next
  case (Cons l ls)
  show ?case
    by (cases "strip l = []")
       (simp_all add: load_lines_Cons_row Cons.IH split: sum.splits)
qed

lemma length_records: "length (records ls) = length (filter (\<lambda>l. strip l \<noteq> []) ls)"
  by (induction ls) (simp_all add: records_def)

subsection \<open>The statement\<close>

lemma those_length: "those xs = Some ys \<Longrightarrow> length ys = length xs"
  by (induction xs arbitrary: ys) (auto split: option.splits)

lemma those_nth:
  "those xs = Some ys \<Longrightarrow> i < length xs \<Longrightarrow> xs ! i = Some (ys ! i)"
proof (induction xs arbitrary: ys i)
  case Nil
  then show ?case by simp
next
  case (Cons x xs)
  then show ?case by (cases i) (auto split: option.splits)
qed

lemma first_error_length: "first_error rs = Inr vs \<Longrightarrow> length vs = length rs"
  by (induction rs arbitrary: vs rule: first_error.induct) (auto split: sum.splits)

lemma first_error_nth:
  "first_error rs = Inr vs \<Longrightarrow> i < length rs \<Longrightarrow> rs ! i = Inr (vs ! i)"
proof (induction rs arbitrary: vs i rule: first_error.induct)
  case 1
  then show ?case by simp
next
  case (2 e rs)
  then show ?case by simp
next
  case (3 v rs)
  then show ?case by (cases i) (auto split: sum.splits)
qed

lemma query_params_length: "query_params obj = Inr params \<Longrightarrow> length params = 10"
  by (auto simp: query_params_def INSERT_COLUMNS_def split: option.splits dest: those_length)

lemma query_params_nth:
  "query_params obj = Inr params \<Longrightarrow> i < 10 \<Longrightarrow>
     map_of obj (INSERT_COLUMNS ! i) = Some (params ! i)"
proof -
  assume q: "query_params obj = Inr params" and i: "i < 10"
  from q have t: "those (map (map_of obj) INSERT_COLUMNS) = Some params"
    by (simp add: query_params_def split: option.splits)
  have len: "length INSERT_COLUMNS = 10" by (simp add: INSERT_COLUMNS_def)
  from those_nth [OF t, of i] i len show ?thesis by simp
qed

lemma query_params_missing:
  "k \<in> set INSERT_COLUMNS \<Longrightarrow> map_of obj k = None \<Longrightarrow>
     \<exists>m. query_params obj = Inl (Exn ProgrammingError m)"
proof -
  assume k: "k \<in> set INSERT_COLUMNS" "map_of obj k = None"
  have "those (map (map_of obj) INSERT_COLUMNS) = None"
  proof (cases "those (map (map_of obj) INSERT_COLUMNS)")
    case None
    then show ?thesis .
  next
    case (Some ys)
    from k(1) obtain i where i: "i < length INSERT_COLUMNS" "INSERT_COLUMNS ! i = k"
      by (auto simp: in_set_conv_nth)
    from those_nth [OF Some, of i] i k(2) show ?thesis by simp
  qed
  then show ?thesis by (simp add: query_params_def)
qed

text \<open>
  What the server did with the \<open>i\<close>-th bound value when the row was built: the cast
  succeeded, no \<^verbatim>\<open>NOT NULL\<close> constraint was violated, and the result is the \<open>i\<close>-th column.
\<close>

lemma sql_row_nth:
  assumes "sql_row env params = Inr r" "length params = 10" "i < 10"
  shows "\<exists>v. sql_value env (INSERT_COLUMNS ! i) (params ! i) = Inr v \<and>
             \<not> (v = JNull \<and> pg_not_null env (INSERT_COLUMNS ! i)) \<and>
             v = [event_id r, event_time r, ingestion_time r, event_name r, user_id r,
                  session_id r, product_id r, price r, device r, payload r] ! i"
proof -
  have len: "length INSERT_COLUMNS = 10" by (simp add: INSERT_COLUMNS_def)
  from assms(1) obtain vs where
    vs: "first_error (map2 (sql_value env) INSERT_COLUMNS params) = Inr vs"
    and nv: "null_violation env vs = None"
    and r: "r = \<lparr>event_id = vs ! 0, event_time = vs ! 1, ingestion_time = vs ! 2,
                    event_name = vs ! 3, user_id = vs ! 4, session_id = vs ! 5,
                    product_id = vs ! 6, price = vs ! 7, device = vs ! 8,
                    payload = vs ! 9\<rparr>"
    by (auto simp: sql_row_def split: sum.splits option.splits)
  from first_error_length [OF vs] assms(2) len have lvs: "length vs = 10" by simp
  from first_error_nth [OF vs, of i] assms(2,3) len
  have v: "sql_value env (INSERT_COLUMNS ! i) (params ! i) = Inr (vs ! i)" by simp
  from nv have "\<forall>x \<in> set (zip INSERT_COLUMNS vs). \<not> (snd x = JNull \<and> pg_not_null env (fst x))"
    by (auto simp: null_violation_def find_None_iff)
  moreover from assms(3) len lvs have "(INSERT_COLUMNS ! i, vs ! i) \<in> set (zip INSERT_COLUMNS vs)"
    by (auto simp: in_set_zip)
  ultimately have nn: "\<not> (vs ! i = JNull \<and> pg_not_null env (INSERT_COLUMNS ! i))" by auto
  from lvs obtain v0 v1 v2 v3 v4 v5 v6 v7 v8 v9 where "vs = [v0, v1, v2, v3, v4, v5, v6, v7, v8, v9]"
    by (auto simp: length_Suc_conv eval_nat_numeral)
  with r have "[event_id r, event_time r, ingestion_time r, event_name r, user_id r,
                  session_id r, product_id r, price r, device r, payload r] = vs"
    by simp
  with v nn show ?thesis by simp
qed

lemma sql_row_event_id:
  assumes "sql_row env params = Inr r" "length params = 10" "pg_not_null env ''event_id''"
  shows "event_id r \<noteq> JNull"
proof -
  from assms(1) obtain vs where
    vs: "first_error (map2 (sql_value env) INSERT_COLUMNS params) = Inr vs"
    and nv: "null_violation env vs = None"
    and r: "event_id r = vs ! 0"
    by (auto simp: sql_row_def split: sum.splits option.splits)
  from first_error_length [OF vs] assms(2) have "length vs = 10"
    by (simp add: INSERT_COLUMNS_def)
  then obtain v vs' where "vs = v # vs'"
    by (cases vs) auto
  with nv assms(3) r show ?thesis
    by (auto simp: null_violation_def INSERT_COLUMNS_def split: if_splits)
qed

lemma line_row_event_id:
  "line_row env l = Inr r \<Longrightarrow> pg_not_null env ''event_id'' \<Longrightarrow> event_id r \<noteq> JNull"
proof -
  assume row: "line_row env l = Inr r" and nn: "pg_not_null env ''event_id''"
  from row obtain obj params where "query_params obj = Inr params" "sql_row env params = Inr r"
    by (auto simp: line_row_def split: sum.splits)
  with nn show ?thesis
    using sql_row_event_id query_params_length by blast
qed

text \<open>What lines 71 to 80 leave under the keys of the statement.\<close>

lemma decode_line_keys:
  assumes "json_loads env line = Inr (JObj obj)"
  shows "\<exists>obj'. decode_line env line = Inr obj' \<and>
           (\<forall>k \<in> set REQUIRED. map_of obj' k = map_of obj k) \<and>
           map_of obj' ''device'' = Some (dict_get obj ''device'')"
proof -
  let ?payload = "if truthy (dict_get obj ''payload'') then dict_get obj ''payload'' else JObj []"
  let ?o1 = "dict_set ''payload'' (JStr (json_dumps env ?payload)) obj"
  let ?o2 = "dict_set ''product_id'' (dict_get ?o1 ''product_id'') ?o1"
  let ?o3 = "dict_set ''price'' (dict_get ?o2 ''price'') ?o2"
  let ?o4 = "dict_set ''device'' (dict_get ?o3 ''device'') ?o3"
  have d: "decode_line env line = Inr ?o4"
    using assms by (simp add: decode_line_def Let_def)
  have r: "\<forall>k \<in> set REQUIRED. map_of ?o4 k = map_of obj k"
    by (auto simp: REQUIRED_def dict_set_def update_conv')
  have v: "map_of ?o4 ''device'' = Some (dict_get obj ''device'')"
    by (simp add: dict_set_def dict_get_def update_conv')
  from d r v show ?thesis by blast
qed

lemma line_row_bound:
  assumes dec: "json_loads env line = Inr (JObj obj)"
    and k: "k \<in> set (REQUIRED @ [''device''])"
    and row: "line_row env line = Inr r"
  shows "(k \<in> set REQUIRED \<longrightarrow> map_of obj k \<noteq> None) \<and>
         (\<exists>v. sql_value env k (dict_get obj k) = Inr v \<and> \<not> (v = JNull \<and> pg_not_null env k) \<and>
              (k = ''device'' \<longrightarrow> device r = v))"
proof -
  from decode_line_keys [OF dec] obtain obj' where
    d: "decode_line env line = Inr obj'" and
    req: "\<And>k. k \<in> set REQUIRED \<Longrightarrow> map_of obj' k = map_of obj k" and
    dev: "map_of obj' ''device'' = Some (dict_get obj ''device'')"
    by blast
  from row d obtain params where
    q: "query_params obj' = Inr params" and s: "sql_row env params = Inr r"
    by (auto simp: line_row_def split: sum.splits)
  have len: "length INSERT_COLUMNS = 10" by (simp add: INSERT_COLUMNS_def)
  from k have "k \<in> set INSERT_COLUMNS" by (auto simp: REQUIRED_def INSERT_COLUMNS_def)
  then obtain i where i: "i < 10" "INSERT_COLUMNS ! i = k"
    unfolding in_set_conv_nth len by blast
  from query_params_nth [OF q i(1)] i(2) have p: "map_of obj' k = Some (params ! i)" by simp
  have present: "map_of obj k \<noteq> None" if "k \<in> set REQUIRED"
    using req [OF that] p by (metis option.distinct(1))
  have bound: "params ! i = dict_get obj k"
  proof (cases "k = ''device''")
    case True
    with p dev show ?thesis by simp
  next
    case False
    with k have "k \<in> set REQUIRED" by simp
    from req [OF this] p have "map_of obj k = Some (params ! i)" by metis
    then show ?thesis by (simp add: dict_get_def)
  qed
  from sql_row_nth [OF s query_params_length [OF q] i(1)] i(2) bound
  obtain v where v: "sql_value env k (dict_get obj k) = Inr v"
    "\<not> (v = JNull \<and> pg_not_null env k)"
    "v = [event_id r, event_time r, ingestion_time r, event_name r, user_id r,
          session_id r, product_id r, price r, device r, payload r] ! i"
    by auto
  have "device r = v" if "k = ''device''"
  proof -
    from that i have "i = 8"
      by (auto simp: INSERT_COLUMNS_def nth_Cons' split: if_splits)
    with v(3) show ?thesis by simp
  qed
  with v present show ?thesis by blast
qed

subsection \<open>\<^verbatim>\<open>load_jsonl_file\<close>, the run record and the transaction\<close>

lemma load_jsonl_file_store_eq:
  "load_jsonl_file env d c p = (r, c') \<Longrightarrow> store c' = store c"
  by (auto simp: load_jsonl_file_def split: option.splits node.splits prod.splits sum.splits
      dest: load_lines_store_eq)

lemma load_jsonl_file_store: "store (snd (load_jsonl_file env d c p)) = store c"
  by (cases "load_jsonl_file env d c p") (auto dest: load_jsonl_file_store_eq)

lemma load_jsonl_file_success:
  assumes "load_jsonl_file env d c p = (Inr stats, c')"
  obtains ls n_in n_loaded where
    "node_at d p = Some (File ls)"
    "load_lines env ls c 0 0 = (Inr (n_in, n_loaded), c')"
    "stats = \<lparr>rows_in_file = n_in, rows_loaded = n_loaded, rows_deduped = n_in - n_loaded\<rparr>"
  using assms
  by (auto simp: load_jsonl_file_def split: option.splits node.splits prod.splits sum.splits)

lemma insert_ingestion_run_store:
  "store (snd (insert_ingestion_run c rid fname started finished stats st err)) = store c"
  by (simp add: insert_ingestion_run_def)

lemma insert_ingestion_run_store_eq:
  "insert_ingestion_run c rid fname started finished stats st err = (r, c') \<Longrightarrow>
     store c' = store c"
  using insert_ingestion_run_store [of c rid fname started finished stats st err] by simp

text \<open>An exception inside the block leaves the committed tables as they were.\<close>

lemma load_and_record_failure:
  assumes "load_and_record env dsn p a d b = (Inl e, b')"
  shows "b' = b"
proof (cases "pg_connect env dsn")
  case (Some m)
  with assms show ?thesis by (simp add: load_and_record_def)
next
  case None
  obtain r1 c1 where l: "load_jsonl_file env d (connect b) p = (r1, c1)"
    by (cases "load_jsonl_file env d (connect b) p")
  from load_jsonl_file_store_eq [OF l] have s1: "store c1 = b"
    by (simp add: connect_def)
  show ?thesis
  proof (cases r1)
    case (Inl e1)
    with assms None l s1 show ?thesis
      by (simp add: load_and_record_def rollback_def)
  next
    case (Inr stats)
    obtain r2 c2 where i: "insert_ingestion_run c1 (new_run_id a) (path_name p) (t_started a)
        (t_finished a) stats ''success'' None = (r2, c2)"
      by (cases "insert_ingestion_run c1 (new_run_id a) (path_name p) (t_started a)
        (t_finished a) stats ''success'' None")
    from insert_ingestion_run_store_eq [OF i] s1 have "store c2 = b" by simp
    with assms None l Inr i show ?thesis
      by (cases r2) (simp_all add: load_and_record_def rollback_def)
  qed
qed

lemma load_and_record_success:
  assumes "load_and_record env dsn p a d b = (Inr stats, b1)"
  obtains c1 where
    "pg_connect env dsn = None"
    "load_jsonl_file env d (connect b) p = (Inr stats, c1)"
    "int4 (rows_in_file stats)" "int4 (rows_loaded stats)" "int4 (rows_deduped stats)"
    "b1 = (txn c1)\<lparr>ingestion_runs := ingestion_runs (txn c1) @ [success_run a p stats]\<rparr>"
  using assms
  by (auto simp: load_and_record_def insert_ingestion_run_def commit_def
      split: option.splits prod.splits sum.splits if_splits)

text \<open>Loading a batch again, into a store that holds the ids of its rows.\<close>

lemma load_reload:
  assumes first: "load_jsonl_file env d c p = (Inr stats, c1)"
    and nn: "pg_not_null env ''event_id''"
    and sub: "event_id ` set (raw_events (txn c1)) \<subseteq> event_id ` set (raw_events (txn c2))"
  shows "load_jsonl_file env d c2 p =
           (Inr \<lparr>rows_in_file = rows_in_file stats, rows_loaded = 0,
                 rows_deduped = rows_in_file stats\<rparr>, c2)"
proof -
  from first obtain ls n_in n_loaded where
    f: "node_at d p = Some (File ls)" and
    run: "load_lines env ls c 0 0 = (Inr (n_in, n_loaded), c1)" and
    s: "stats = \<lparr>rows_in_file = n_in, rows_loaded = n_loaded, rows_deduped = n_in - n_loaded\<rparr>"
    by (rule load_jsonl_file_success)
  from load_lines_counts [OF run] have n: "n_in = int (length (records ls))" by simp
  have "\<forall>l \<in> set (records ls). \<exists>r. line_row env l = Inr r \<and> conflicts r (raw_events (txn c2))"
  proof
    fix l assume "l \<in> set (records ls)"
    with load_lines_rows [OF run] obtain r where
      r: "line_row env l = Inr r" "event_id r \<in> event_id ` set (raw_events (txn c1))"
      by blast
    from r(1) nn have "event_id r \<noteq> JNull" by (rule line_row_event_id)
    with r sub show "\<exists>r. line_row env l = Inr r \<and> conflicts r (raw_events (txn c2))"
      by (auto simp: conflicts_def)
  qed
  from load_lines_reload [OF this, of 0 0] f n s show ?thesis
    by (simp add: load_jsonl_file_def)
qed

lemma load_and_record_reload:
  assumes first: "load_and_record env dsn p a d b = (Inr stats, b1)"
    and nn: "pg_not_null env ''event_id''"
  shows "load_and_record env dsn p a2 d b1 =
           (Inr \<lparr>rows_in_file = rows_in_file stats, rows_loaded = 0,
                 rows_deduped = rows_in_file stats\<rparr>,
            b1\<lparr>ingestion_runs := ingestion_runs b1 @
                 [success_run a2 p \<lparr>rows_in_file = rows_in_file stats, rows_loaded = 0,
                                rows_deduped = rows_in_file stats\<rparr>]\<rparr>)"
proof -
  from first obtain c1 where
    conn: "pg_connect env dsn = None" and
    load: "load_jsonl_file env d (connect b) p = (Inr stats, c1)" and
    i4: "int4 (rows_in_file stats)" and
    b1: "b1 = (txn c1)\<lparr>ingestion_runs := ingestion_runs (txn c1) @ [success_run a p stats]\<rparr>"
    by (rule load_and_record_success)
  from b1 have "event_id ` set (raw_events (txn c1)) \<subseteq> event_id ` set (raw_events (txn (connect b1)))"
    by (simp add: connect_def)
  from load_reload [OF load nn this]
  have "load_jsonl_file env d (connect b1) p =
          (Inr \<lparr>rows_in_file = rows_in_file stats, rows_loaded = 0,
                rows_deduped = rows_in_file stats\<rparr>, connect b1)" .
  with conn i4 show ?thesis
    by (simp add: load_and_record_def insert_ingestion_run_def commit_def connect_def int4_def)
qed

text \<open>Three records, the third with the id of the first, into a table without rows.\<close>

lemma load_and_record_three:
  assumes src0: "node_at d p = Some (File [l1, l2, l3])"
    and nonblank: "strip l1 \<noteq> []" "strip l2 \<noteq> []" "strip l3 \<noteq> []"
    and rows: "line_row env (strip l1) = Inr r1" "line_row env (strip l2) = Inr r2"
      "line_row env (strip l3) = Inr r3"
    and ids: "event_id r1 \<noteq> JNull" "event_id r3 = event_id r1" "event_id r2 \<noteq> event_id r1"
    and empty: "raw_events b = []"
    and conn: "pg_connect env dsn = None"
  shows "load_and_record env dsn p a d b =
      (Inr \<lparr>rows_in_file = 3, rows_loaded = 2, rows_deduped = 1\<rparr>,
       \<lparr>raw_events = [r1, r2],
        ingestion_runs = ingestion_runs b @
          [success_run a p \<lparr>rows_in_file = 3, rows_loaded = 2, rows_deduped = 1\<rparr>]\<rparr>)"
proof -
  let ?c = "connect b"
  have "load_lines env [l1, l2, l3] ?c 0 0 = (Inr (3, 2), add_row r2 (add_row r1 ?c))"
    using nonblank rows ids empty
    by (simp add: load_lines_Cons_row conflicts_def connect_def)
  with src0 conn empty show ?thesis
    by (simp add: load_and_record_def load_jsonl_file_def insert_ingestion_run_def
        commit_def connect_def int4_def add_row_def)
qed

text \<open>A record without a row makes the whole attempt fail and changes nothing.\<close>

lemma load_and_record_invalid:
  assumes src0: "node_at d p = Some (File ls)"
    and bad: "l \<in> set ls" "strip l \<noteq> []" "isl (line_row env (strip l))"
  shows "\<exists>e. load_and_record env dsn p a d b = (Inl e, b)"
proof -
  from bad have "\<exists>l \<in> set (records ls). isl (line_row env l)"
    by (auto simp: records_def)
  then have "isl (fst (load_lines env ls (connect b) 0 0))"
    by (rule load_lines_invalid)
  with src0 have "isl (fst (load_jsonl_file env d (connect b) p))"
    by (auto simp: load_jsonl_file_def isl_def split: prod.splits sum.splits)
  then have "isl (fst (load_and_record env dsn p a d b))"
    by (auto simp: load_and_record_def isl_def split: option.splits prod.splits sum.splits)
  then obtain e b' where run: "load_and_record env dsn p a d b = (Inl e, b')"
    by (cases "load_and_record env dsn p a d b") (auto simp: isl_def)
  from load_and_record_failure [OF run] run show ?thesis by simp
qed

subsection \<open>The file system\<close>

lemma node_at_snoc:
  "node_at d p = None \<Longrightarrow> node_at (d @ [(p, Dir)]) q = (if q = p then Some Dir else node_at d q)"
  by (auto simp: node_at_def map_add_def split: if_splits option.splits)

lemma mkdirs_node_at:
  "mkdirs ps d = Inr d1 \<Longrightarrow>
     node_at d1 q = (if q \<in> set ps \<and> node_at d q = None then Some Dir else node_at d q)"
proof (induction ps arbitrary: d)
  case Nil
  then show ?case by simp
next
  case (Cons p ps)
  show ?case
  proof (cases "node_at d p")
    case None
    with Cons.prems have "mkdirs ps (d @ [(p, Dir)]) = Inr d1" by simp
    from Cons.IH [OF this] None show ?thesis
      by (auto simp: node_at_snoc)
  next
    case (Some n)
    with Cons.prems have n: "n = Dir" and "mkdirs ps d = Inr d1"
      by (cases n; simp)+
    from Cons.IH [OF this(2)] Some show ?thesis by auto
  qed
qed

lemma mkdirs_ok:
  "\<forall>p \<in> set ps. \<not> is_file d p \<Longrightarrow> \<exists>d1. mkdirs ps d = Inr d1"
proof (induction ps arbitrary: d)
  case Nil
  show ?case by simp
next
  case (Cons p ps)
  show ?case
  proof (cases "node_at d p")
    case None
    have "\<forall>q \<in> set ps. \<not> is_file (d @ [(p, Dir)]) q"
      using Cons.prems None by (auto simp: is_file_def node_at_snoc)
    from Cons.IH [OF this] None show ?thesis by simp
  next
    case (Some n)
    with Cons.prems have "n = Dir" by (cases n) (auto simp: is_file_def)
    moreover from Cons.prems have "\<forall>q \<in> set ps. \<not> is_file d q" by simp
    from Cons.IH [OF this] obtain d1 where "mkdirs ps d = Inr d1" by blast
    ultimately show ?thesis using Some by simp
  qed
qed

lemma node_at_move:
  "dst \<noteq> [] \<Longrightarrow>
   node_at (AList.update dst n (AList.delete src d)) q =
     (if q = dst then Some n else if q = src then (if q = [] then Some Dir else None) else node_at d q)"
  by (auto simp: node_at_def update_conv' delete_conv')

lemma archive_dest_not_prefix:
  "path_name p \<noteq> [] \<Longrightarrow> archive_dest p \<noteq> [''data''] \<and> archive_dest p \<noteq> ARCHIVE_DIR \<and>
     archive_dest p \<noteq> [] \<and> butlast (archive_dest p) = ARCHIVE_DIR"
  by (simp add: archive_dest_def ARCHIVE_DIR_def)

text \<open>
  Archiving a file succeeds when the file system lets it: the file is then at the
  destination, whatever was there before, and no longer at its place.
\<close>

lemma archive_file_ok:
  assumes src0: "node_at d p = Some (File ls)" and can: "can_archive d p"
  shows "\<exists>d'. archive_file d p = (Inr (archive_dest p), d') \<and>
               node_at d' (archive_dest p) = Some (File ls) \<and>
               (p \<noteq> archive_dest p \<longrightarrow> node_at d' p = None)"
proof -
  from can have name: "path_name p \<noteq> []" and nf: "\<not> is_file d [''data'']" "\<not> is_file d ARCHIVE_DIR"
    and nd: "\<not> is_dir d (archive_dest p)"
    by (simp_all add: can_archive_def)
  have pre: "tl (prefixes ARCHIVE_DIR) = [ [''data''], ARCHIVE_DIR]"
    by (simp add: ARCHIVE_DIR_def)
  from nf have "\<forall>q \<in> set [ [''data''], ARCHIVE_DIR]. \<not> is_file d q" by simp
  from mkdirs_ok [OF this] obtain d1 where d1: "mkdirs [ [''data''], ARCHIVE_DIR] d = Inr d1"
    by blast
  note at = mkdirs_node_at [OF d1]
  from name have p: "p \<noteq> []" by (auto simp: path_name_def)
  note dest = archive_dest_not_prefix [OF name]
  have src: "node_at d1 p = Some (File ls)" using src0 by (simp add: at)
  have dst: "\<not> is_dir d1 (archive_dest p)" using nd dest by (simp add: at is_dir_def)
  have par: "node_at d1 (butlast (archive_dest p)) = Some Dir"
    using nf(2) dest by (auto simp: at is_file_def split: option.splits node.splits)
  have mv: "shutil_move d1 p (archive_dest p) =
              Inr (AList.update (archive_dest p) (File ls) (AList.delete p d1))"
    using src dst par by (simp add: shutil_move_def)
  show ?thesis
    using d1 mv dest p by (simp add: archive_file_def mkdir_parents_def pre node_at_move)
qed

subsection \<open>\<^verbatim>\<open>ingest_one_file\<close> and the loop of \<^verbatim>\<open>main\<close>\<close>

lemma ingest_one_file_success:
  assumes run: "load_and_record env dsn p a (disk w) (database w) = (Inr stats, b1)"
    and src0: "node_at (disk w) p = Some (File ls)"
    and can: "can_archive (disk w) p"
  shows "\<exists>d'. ingest_one_file env dsn p a w =
                 (Inr \<lparr>s_name = path_name p, s_stats = stats, s_archived = archive_dest p\<rparr>,
                  \<lparr>disk = d', database = b1\<rparr>) \<and>
               node_at d' (archive_dest p) = Some (File ls) \<and>
               (p \<noteq> archive_dest p \<longrightarrow> node_at d' p = None)"
proof -
  from archive_file_ok [OF src0 can] obtain d' where
    "archive_file (disk w) p = (Inr (archive_dest p), d')"
    "node_at d' (archive_dest p) = Some (File ls)"
    "p \<noteq> archive_dest p \<longrightarrow> node_at d' p = None"
    by blast
  with run show ?thesis by (simp add: ingest_one_file_def)
qed

lemma ingest_one_file_invalid:
  assumes "node_at (disk w) p = Some (File ls)"
    and "l \<in> set ls" "strip l \<noteq> []" "isl (line_row env (strip l))"
  shows "\<exists>e. ingest_one_file env dsn p a w =
               (Inl (Exn RuntimeError (''Failed to ingest '' @ path_name p @ '': '' @ exn_str e)),
                w)"
proof -
  from load_and_record_invalid [OF assms] obtain e where
    "load_and_record env dsn p a (disk w) (database w) = (Inl e, database w)"
    by blast
  then show ?thesis
    by (auto simp: ingest_one_file_def ingest_failure_def)
qed

lemma ingest_files_append:
  "ingest_files env dsn att ps w = (Inr ss, w1) \<Longrightarrow>
     ingest_files env dsn att (ps @ qs) w =
       (case ingest_files env dsn att qs w1 of
          (Inl e, w2) \<Rightarrow> (Inl e, w2)
        | (Inr ss', w2) \<Rightarrow> (Inr (ss @ ss'), w2))"
proof (induction ps arbitrary: w ss)
  case Nil
  then show ?case by (auto split: prod.splits sum.splits)
next
  case (Cons p ps)
  from Cons.prems obtain s w' ss' where
    one: "ingest_one_file env dsn p (att p) w = (Inr s, w')" and
    rest: "ingest_files env dsn att ps w' = (Inr ss', w1)" and
    ss: "ss = s # ss'"
    by (auto split: prod.splits sum.splits)
  from Cons.IH [OF rest] one ss show ?case
    by (auto split: prod.splits sum.splits)
qed

subsection \<open>A record without \<^verbatim>\<open>device\<close>\<close>

text \<open>
  With the six keys present every placeholder is bound, whatever else the record lacks:
  the loader raises nothing and the row is the one the server builds from
  \<open>bound_values\<close>.
\<close>

lemma decode_line_params:
  assumes dec: "json_loads env line = Inr (JObj obj)"
    and req: "None \<notin> set (map (map_of obj) REQUIRED)"
  shows "\<exists>obj'. decode_line env line = Inr obj' \<and> query_params obj' = Inr (bound_values env obj)"
proof -
  let ?payload = "if truthy (dict_get obj ''payload'') then dict_get obj ''payload'' else JObj []"
  let ?o1 = "dict_set ''payload'' (JStr (json_dumps env ?payload)) obj"
  let ?o2 = "dict_set ''product_id'' (dict_get ?o1 ''product_id'') ?o1"
  let ?o3 = "dict_set ''price'' (dict_get ?o2 ''price'') ?o2"
  let ?o4 = "dict_set ''device'' (dict_get ?o3 ''device'') ?o3"
  have d: "decode_line env line = Inr ?o4"
    using dec by (simp add: decode_line_def Let_def)
  from req obtain v0 v1 v2 v3 v4 v5 where v:
    "map_of obj ''event_id'' = Some v0" "map_of obj ''event_time'' = Some v1"
    "map_of obj ''ingestion_time'' = Some v2" "map_of obj ''event_name'' = Some v3"
    "map_of obj ''user_id'' = Some v4" "map_of obj ''session_id'' = Some v5"
    by (simp add: REQUIRED_def) (metis option.exhaust)
  have "query_params ?o4 = Inr (bound_values env obj)"
    using v
    by (simp add: query_params_def INSERT_COLUMNS_def bound_values_def REQUIRED_def
        dict_set_def dict_get_def update_conv')
  with d show ?thesis by blast
qed

lemma line_row_bound_values:
  assumes "json_loads env line = Inr (JObj obj)"
    and "None \<notin> set (map (map_of obj) REQUIRED)"
  shows "line_row env line = sql_row env (bound_values env obj)"
  using decode_line_params [OF assms] by (auto simp: line_row_def)

text \<open>
  A row that the server builds with some value for \<^verbatim>\<open>device\<close> is also built with
  \<^verbatim>\<open>NULL\<close> there, when the column lets it.
\<close>

lemma first_error_all:
  "length vs = length rs \<Longrightarrow> \<forall>i < length rs. rs ! i = Inr (vs ! i) \<Longrightarrow> first_error rs = Inr vs"
proof (induction rs arbitrary: vs rule: first_error.induct)
  case 1
  then show ?case by simp
next
  case (2 e rs)
  then show ?case by auto
next
  case (3 v rs)
  then obtain w ws where vs: "vs = w # ws" by (cases vs) auto
  with "3.prems" have "first_error rs = Inr ws"
    by (intro "3.IH") auto
  moreover from "3.prems" vs have "w = v" by auto
  ultimately show ?case using vs by simp
qed

lemma sql_row_null_device:
  assumes len: "length params = 10"
    and row: "sql_row env (params[8 := dv]) = Inr r"
    and nullable: "\<not> pg_not_null env ''device''"
  shows "sql_row env (params[8 := JNull]) = Inr (r\<lparr>device := JNull\<rparr>)"
proof -
  have clen: "length INSERT_COLUMNS = 10" and c8: "INSERT_COLUMNS ! 8 = ''device''"
    by (simp_all add: INSERT_COLUMNS_def)
  from row obtain vs where
    vs: "first_error (map2 (sql_value env) INSERT_COLUMNS (params[8 := dv])) = Inr vs"
    and nv: "null_violation env vs = None"
    and r: "r = \<lparr>event_id = vs ! 0, event_time = vs ! 1, ingestion_time = vs ! 2,
                    event_name = vs ! 3, user_id = vs ! 4, session_id = vs ! 5,
                    product_id = vs ! 6, price = vs ! 7, device = vs ! 8,
                    payload = vs ! 9\<rparr>"
    by (auto simp: sql_row_def split: sum.splits option.splits)
  from first_error_length [OF vs] len clen have lvs: "length vs = 10" by simp
  let ?vs = "vs[8 := JNull]"
  have "first_error (map2 (sql_value env) INSERT_COLUMNS (params[8 := JNull])) = Inr ?vs"
  proof (rule first_error_all)
    show "length ?vs = length (map2 (sql_value env) INSERT_COLUMNS (params[8 := JNull]))"
      using lvs len clen by simp
    show "\<forall>i < length (map2 (sql_value env) INSERT_COLUMNS (params[8 := JNull])).
            map2 (sql_value env) INSERT_COLUMNS (params[8 := JNull]) ! i = Inr (?vs ! i)"
    proof (intro allI impI)
      fix i assume "i < length (map2 (sql_value env) INSERT_COLUMNS (params[8 := JNull]))"
      with len clen have i: "i < 10" by simp
      from first_error_nth [OF vs, of i] i len clen
      have old: "sql_value env (INSERT_COLUMNS ! i) (params[8 := dv] ! i) = Inr (vs ! i)"
        by simp
      show "map2 (sql_value env) INSERT_COLUMNS (params[8 := JNull]) ! i = Inr (?vs ! i)"
      proof (cases "i = 8")
        case True
        with len clen lvs show ?thesis by (simp add: sql_value_def)
      next
        case False
        with old i len clen lvs show ?thesis by simp
      qed
    qed
  qed
  moreover have "null_violation env ?vs = None"
  proof -
    from nv have old: "\<forall>x \<in> set (zip INSERT_COLUMNS vs). \<not> (snd x = JNull \<and> pg_not_null env (fst x))"
      by (auto simp: null_violation_def find_None_iff)
    have "\<not> (snd x = JNull \<and> pg_not_null env (fst x))" if "x \<in> set (zip INSERT_COLUMNS ?vs)" for x
    proof -
      from that obtain i where i: "i < 10" "x = (INSERT_COLUMNS ! i, ?vs ! i)"
        using lvs clen by (auto simp: in_set_zip)
      show ?thesis
      proof (cases "i = 8")
        case True
        with i c8 nullable show ?thesis by simp
      next
        case False
        with i lvs clen have "x \<in> set (zip INSERT_COLUMNS vs)"
          by (auto simp: in_set_zip)
        with old show ?thesis by blast
      qed
    qed
    then show ?thesis
      by (auto simp: null_violation_def find_None_iff)
  qed
  ultimately show ?thesis
    using r lvs by (simp add: sql_row_def)
qed

subsection \<open>The sample batches\<close>

lemma strip_line:
  assumes "s \<noteq> []" "\<not> isspace (hd s)" "\<not> isspace (last s)"
  shows "strip (s @ nl) = s"
proof -
  from assms have "dropWhile isspace (s @ nl) = s @ nl"
    by (cases s) auto
  moreover have "isspace (CHR 0x0A)"
    by (simp add: isspace_def)
  moreover from assms have "dropWhile isspace (rev s) = rev s"
    by (cases s rule: rev_cases) auto
  ultimately show ?thesis
    by (simp add: strip_def nl_def)
qed

lemma sample_strip:
  "strip (line_A @ nl) = line_A"
  "strip (line_B @ nl) = line_B"
  "strip (line_A2 @ nl) = line_A2"
  "strip (line_no_device @ nl) = line_no_device"
  "strip (line_bad @ nl) = line_bad"
  by (rule strip_line;
      simp add: line_A_def line_B_def line_A2_def line_no_device_def line_bad_def isspace_def)+

lemma sample_nonblank:
  "line_A \<noteq> []" "line_B \<noteq> []" "line_A2 \<noteq> []" "line_no_device \<noteq> []" "line_bad \<noteq> []"
  by (simp_all add: line_A_def line_B_def line_A2_def line_no_device_def line_bad_def)

lemma sample_blank:
  "strip nl = []" "strip (''   '' @ nl) = []" "strip [] = []"
  by (simp_all add: strip_def nl_def isspace_def)

lemma sample_records_blank: "records batch_blank = []"
  by (simp add: records_def batch_blank_def strip_def nl_def isspace_def)

lemma sample_decoded:
  "json_loads sample_env line_A = Inr (JObj obj_A)"
  "json_loads sample_env line_B = Inr (JObj obj_B)"
  "json_loads sample_env line_A2 = Inr (JObj obj_A2)"
  "json_loads sample_env line_no_device = Inr (JObj obj_no_device)"
  "json_loads sample_env line_no_user = Inr (JObj obj_no_user)"
  "json_loads sample_env line_bad_user = Inr (JObj obj_bad_user)"
  "json_loads sample_env line_null_id = Inr (JObj obj_null_id)"
  "json_loads sample_env line_bad = Inl ''Expecting value: line 1 column 1 (char 0)''"
  by (simp_all add: sample_env_def sample_loads_def line_A_def line_B_def line_A2_def
      line_no_device_def line_no_user_def line_bad_user_def line_null_id_def line_bad_def)

lemma sample_env_simps:
  "json_dumps sample_env (JObj []) = ''{}''"
  "pg_not_null sample_env col = (col = ''event_id'')"
  "pg_connect sample_env dsn = None"
  "v \<noteq> JStr ''abc'' \<Longrightarrow> pg_cast sample_env col v = Inr v"
  by (simp_all add: sample_env_def)

lemma sample_rows:
  "line_row sample_env line_A = Inr row_A"
  "line_row sample_env line_B = Inr row_B"
  "line_row sample_env line_A2 = Inr row_A2"
  "line_row sample_env line_no_device = Inr row_no_device"
  by (simp_all add: line_row_def decode_line_def sample_decoded sample_env_simps
      obj_A_def obj_B_def obj_A2_def obj_no_device_def
      row_A_def row_B_def row_A2_def row_no_device_def
      dict_get_def dict_set_def query_params_def INSERT_COLUMNS_def sql_row_def sql_value_def
      null_violation_def)

lemma sample_row_bad:
  "line_row sample_env line_bad =
     Inl (Exn JSONDecodeError ''Expecting value: line 1 column 1 (char 0)'')"
  by (simp add: line_row_def decode_line_def sample_decoded)

lemma sample_paths:
  "path_name batch_1 = ''events_1.jsonl''"
  "path_name batch_2 = ''events_2.jsonl''"
  "archive_dest batch_1 = ARCHIVE_DIR @ [''events_1.jsonl'']"
  "batch_1 \<noteq> archive_dest batch_1"
  "batch_2 \<noteq> archive_dest batch_2"
  by (simp_all add: batch_1_def batch_2_def path_name_def archive_dest_def INCOMING_DIR_def
      ARCHIVE_DIR_def)

lemma sample_staged:
  "node_at (staged ls) batch_1 = Some (File ls)"
  "can_archive (staged ls) batch_1"
  by (simp_all add: staged_def node_at_def can_archive_def is_file_def is_dir_def
      batch_1_def path_name_def archive_dest_def INCOMING_DIR_def ARCHIVE_DIR_def)

lemma sample_ids:
  "event_id row_A \<noteq> JNull" "event_id row_A2 = event_id row_A" "event_id row_B \<noteq> event_id row_A"
  "row_A2 \<noteq> row_A"
  by (simp_all add: row_A_def row_B_def row_A2_def)

lemma sample_load_ABA:
  "load_jsonl_file sample_env (staged batch_ABA) (connect empty_db) batch_1 =
     (Inr stats_ABA, conn_ABA)"
proof -
  have "load_lines sample_env batch_ABA (connect empty_db) 0 0 = (Inr (3, 2), conn_ABA)"
    using sample_ids
    by (simp add: batch_ABA_def load_lines_Cons_row sample_strip sample_nonblank sample_rows
        conflicts_def connect_def empty_db_def conn_ABA_def)
  then show ?thesis
    by (simp add: load_jsonl_file_def sample_staged stats_ABA_def)
qed

lemma sample_record_ABA:
  "load_and_record sample_env dsn batch_1 attempt_1 (staged batch_ABA) empty_db =
     (Inr stats_ABA, db_ABA)"
  using load_and_record_three [of "staged batch_ABA" batch_1 "line_A @ nl" "line_B @ nl"
      "line_A2 @ nl" sample_env row_A row_B row_A2 empty_db dsn attempt_1]
  by (simp add: batch_ABA_def [symmetric] sample_staged sample_strip sample_nonblank sample_rows
      sample_ids sample_env_simps empty_db_def stats_ABA_def db_ABA_def)

lemma sample_reload_ABA:
  "load_jsonl_file sample_env (staged batch_ABA) (connect db_ABA) batch_1 =
     (Inr \<lparr>rows_in_file = 3, rows_loaded = 0, rows_deduped = 3\<rparr>, connect db_ABA)"
  using load_reload [OF sample_load_ABA, of "connect db_ABA"]
  by (simp add: sample_env_simps conn_ABA_def connect_def db_ABA_def stats_ABA_def
      empty_db_def add_row_def)

lemma sample_two:
  "node_at staged_two batch_1 = Some (File [line_bad @ nl])"
  "node_at staged_two batch_2 = Some (File [line_B @ nl])"
  "can_archive staged_two batch_2"
  by (simp_all add: staged_two_def node_at_def can_archive_def is_file_def is_dir_def
      batch_1_def batch_2_def path_name_def archive_dest_def INCOMING_DIR_def ARCHIVE_DIR_def)

lemma sample_staged_files: "staged_files staged_two = [batch_1, batch_2]"
  by code_simp

lemma sample_ingest_bad_first:
  "ingest_one_file sample_env dsn batch_1 a world_two =
     (Inl (Exn RuntimeError
        ''Failed to ingest events_1.jsonl: Expecting value: line 1 column 1 (char 0)''),
      world_two)"
proof -
  have "load_lines sample_env [line_bad @ nl] c 0 0 =
          (Inl (Exn JSONDecodeError ''Expecting value: line 1 column 1 (char 0)''), c)" for c
    by (simp add: load_lines_Cons_row sample_strip sample_nonblank sample_row_bad)
  then have "load_and_record sample_env dsn batch_1 a staged_two empty_db =
      (Inl (Exn JSONDecodeError ''Expecting value: line 1 column 1 (char 0)''), empty_db)"
    by (simp add: load_and_record_def load_jsonl_file_def sample_two sample_env_simps
        rollback_def connect_def)
  then show ?thesis
    by (simp add: ingest_one_file_def world_two_def ingest_failure_def sample_paths)
qed

lemma sample_record_B:
  "load_and_record sample_env dsn batch_2 a staged_two empty_db =
     (Inr \<lparr>rows_in_file = 1, rows_loaded = 1, rows_deduped = 0\<rparr>,
      \<lparr>raw_events = [row_B],
       ingestion_runs = [success_run a batch_2
          \<lparr>rows_in_file = 1, rows_loaded = 1, rows_deduped = 0\<rparr>]\<rparr>)"
proof -
  have "load_lines sample_env [line_B @ nl] (connect empty_db) 0 0 =
          (Inr (1, 1), add_row row_B (connect empty_db))"
    by (simp add: load_lines_Cons_row sample_strip sample_nonblank sample_rows conflicts_def
        connect_def empty_db_def)
  then show ?thesis
    by (simp add: load_and_record_def load_jsonl_file_def sample_two sample_env_simps
        insert_ingestion_run_def int4_def commit_def connect_def add_row_def empty_db_def)
qed

lemma sample_load_no_device:
  "load_jsonl_file sample_env (staged [line_no_device @ nl]) (connect empty_db) batch_1 =
     (Inr \<lparr>rows_in_file = 1, rows_loaded = 1, rows_deduped = 0\<rparr>,
      add_row row_no_device (connect empty_db))"
proof -
  have "load_lines sample_env [line_no_device @ nl] (connect empty_db) 0 0 =
          (Inr (1, 1), add_row row_no_device (connect empty_db))"
    by (simp add: load_lines_Cons_row sample_strip sample_nonblank sample_rows conflicts_def
        connect_def empty_db_def)
  then show ?thesis
    by (simp add: load_jsonl_file_def sample_staged)
qed

lemma sample_dup:
  "node_at staged_dup batch_1 = Some (File [line_B @ nl])"
  "node_at staged_dup (archive_dest batch_1) = Some (File [line_A @ nl])"
  "path_name batch_1 \<noteq> []"
  "is_dir staged_dup [''data'']"
  "is_dir staged_dup ARCHIVE_DIR"
  "can_archive staged_dup batch_1"
  by (simp_all add: staged_dup_def node_at_def can_archive_def is_file_def is_dir_def
      batch_1_def path_name_def archive_dest_def INCOMING_DIR_def ARCHIVE_DIR_def)

lemma sample_lines_differ: "line_A @ nl \<noteq> line_B @ nl"
  by (simp add: line_A_def line_B_def)

section \<open>The claims\<close>

subsection \<open>C1: commit before archive\<close>

text \<open>
  Claim C1. The archive step is performed only after the batch's data rows and its run
  record have been committed; a process that is killed after the commit and before the
  move leaves the batch staged, and a later run of \<^verbatim>\<open>ingest_one_file\<close> on it completes with
  \<^verbatim>\<open>rows_loaded = 0\<close> and adds no data row.

  First part: whenever \<^verbatim>\<open>ingest_one_file\<close> has changed the file system, the transaction
  block had succeeded, the database holds what it committed, the run record of the
  attempt is in it, and every record of the batch has a row whose id is in
  \<^verbatim>\<open>raw_events\<close>. Second part: in the world left by the killed process the disk is as
  before (the batch is staged) and the database is the committed one; on it, with the
  table declaring \<^verbatim>\<open>event_id\<close> \<^verbatim>\<open>NOT NULL\<close> and the file system letting the file be
  archived, \<^verbatim>\<open>ingest_one_file\<close> returns normally, reports no row loaded and leaves
  \<^verbatim>\<open>raw_events\<close> as it was.
\<close>

theorem C1_commit_before_archive:
  "(ingest_one_file env dsn p a w = (out, w') \<and> disk w' \<noteq> disk w \<longrightarrow>
      (\<exists>stats. load_and_record env dsn p a (disk w) (database w) = (Inr stats, database w') \<and>
         success_run a p stats \<in> set (ingestion_runs (database w')) \<and>
         (\<forall>ls. node_at (disk w) p = Some (File ls) \<longrightarrow>
            (\<forall>l \<in> set (records ls). \<exists>r. line_row env l = Inr r \<and>
                event_id r \<in> event_id ` set (raw_events (database w')))))) \<and>
   (load_and_record env dsn p a (disk w) (database w) = (Inr stats1, b1) \<and>
    pg_not_null env ''event_id'' \<and> can_archive (disk w) p \<longrightarrow>
      disk (killed_before_archive env dsn p a w) = disk w \<and>
      database (killed_before_archive env dsn p a w) = b1 \<and>
      (\<exists>d' b2. ingest_one_file env dsn p a2 (killed_before_archive env dsn p a w) =
           (Inr \<lparr>s_name = path_name p,
                 s_stats = \<lparr>rows_in_file = rows_in_file stats1, rows_loaded = 0,
                            rows_deduped = rows_in_file stats1\<rparr>,
                 s_archived = archive_dest p\<rparr>,
            \<lparr>disk = d', database = b2\<rparr>) \<and>
         raw_events b2 = raw_events b1))"
proof (rule conjI; rule impI)
  assume h: "ingest_one_file env dsn p a w = (out, w') \<and> disk w' \<noteq> disk w"
  obtain res b where run: "load_and_record env dsn p a (disk w) (database w) = (res, b)"
    by (cases "load_and_record env dsn p a (disk w) (database w)")
  show "\<exists>stats. load_and_record env dsn p a (disk w) (database w) = (Inr stats, database w') \<and>
         success_run a p stats \<in> set (ingestion_runs (database w')) \<and>
         (\<forall>ls. node_at (disk w) p = Some (File ls) \<longrightarrow>
            (\<forall>l \<in> set (records ls). \<exists>r. line_row env l = Inr r \<and>
                event_id r \<in> event_id ` set (raw_events (database w'))))"
  proof (cases res)
    case (Inl e)
    with h run show ?thesis by (auto simp: ingest_one_file_def)
  next
    case (Inr stats)
    with h run have w': "database w' = b"
      by (auto simp: ingest_one_file_def split: prod.splits sum.splits)
    from run Inr obtain c1 where
      load: "load_jsonl_file env (disk w) (connect (database w)) p = (Inr stats, c1)" and
      b: "b = (txn c1)\<lparr>ingestion_runs := ingestion_runs (txn c1) @ [success_run a p stats]\<rparr>"
      by (auto elim: load_and_record_success)
    have "\<forall>l \<in> set (records ls). \<exists>r. line_row env l = Inr r \<and>
                event_id r \<in> event_id ` set (raw_events b)"
      if "node_at (disk w) p = Some (File ls)" for ls
    proof -
      from load that obtain a' b' where
        "load_lines env ls (connect (database w)) 0 0 = (Inr (a', b'), c1)"
        by (auto elim: load_jsonl_file_success)
      from load_lines_rows [OF this] b show ?thesis by simp
    qed
    with run Inr w' b show ?thesis by simp
  qed
next
  assume h: "load_and_record env dsn p a (disk w) (database w) = (Inr stats1, b1) \<and>
    pg_not_null env ''event_id'' \<and> can_archive (disk w) p"
  let ?kw = "killed_before_archive env dsn p a w"
  from h have kd: "disk ?kw = disk w" and kb: "database ?kw = b1"
    by (simp_all add: killed_before_archive_def)
  from h obtain c1 where "load_jsonl_file env (disk w) (connect (database w)) p = (Inr stats1, c1)"
    by (auto elim: load_and_record_success)
  then obtain ls where src0: "node_at (disk w) p = Some (File ls)"
    by (auto elim: load_jsonl_file_success)
  from h have "load_and_record env dsn p a2 (disk ?kw) (database ?kw) =
           (Inr \<lparr>rows_in_file = rows_in_file stats1, rows_loaded = 0,
                 rows_deduped = rows_in_file stats1\<rparr>,
            b1\<lparr>ingestion_runs := ingestion_runs b1 @
                 [success_run a2 p \<lparr>rows_in_file = rows_in_file stats1, rows_loaded = 0,
                                rows_deduped = rows_in_file stats1\<rparr>]\<rparr>)"
    unfolding kd kb using load_and_record_reload [of env dsn p a "disk w" "database w" stats1 b1 a2]
    by simp
  from ingest_one_file_success [OF this, of ls] src0 h kd
  have "\<exists>d' b2. ingest_one_file env dsn p a2 ?kw =
           (Inr \<lparr>s_name = path_name p,
                 s_stats = \<lparr>rows_in_file = rows_in_file stats1, rows_loaded = 0,
                            rows_deduped = rows_in_file stats1\<rparr>,
                 s_archived = archive_dest p\<rparr>,
            \<lparr>disk = d', database = b2\<rparr>) \<and>
         raw_events b2 = raw_events b1"
    by auto
  with kd kb show "disk ?kw = disk w \<and> database ?kw = b1 \<and>
      (\<exists>d' b2. ingest_one_file env dsn p a2 ?kw =
           (Inr \<lparr>s_name = path_name p,
                 s_stats = \<lparr>rows_in_file = rows_in_file stats1, rows_loaded = 0,
                            rows_deduped = rows_in_file stats1\<rparr>,
                 s_archived = archive_dest p\<rparr>,
            \<lparr>disk = d', database = b2\<rparr>) \<and>
         raw_events b2 = raw_events b1)"
    by blast
qed

text \<open>
  The batch A, B, A: the first run archives it, and a run on the world of the process
  killed before the move loads nothing.
\<close>

theorem C1_witness:
  "ingest_one_file sample_env ''dsn'' batch_1 attempt_1 world_ABA =
     (fst (ingest_one_file sample_env ''dsn'' batch_1 attempt_1 world_ABA),
      snd (ingest_one_file sample_env ''dsn'' batch_1 attempt_1 world_ABA)) \<and>
   disk (snd (ingest_one_file sample_env ''dsn'' batch_1 attempt_1 world_ABA)) \<noteq> disk world_ABA \<and>
   load_and_record sample_env ''dsn'' batch_1 attempt_1 (disk world_ABA) (database world_ABA) =
     (Inr stats_ABA, db_ABA) \<and>
   pg_not_null sample_env ''event_id'' \<and>
   can_archive (disk world_ABA) batch_1 \<and>
   database (snd (ingest_one_file sample_env ''dsn'' batch_1 attempt_1 world_ABA)) = db_ABA \<and>
   disk (killed_before_archive sample_env ''dsn'' batch_1 attempt_1 world_ABA) = disk world_ABA \<and>
   database (killed_before_archive sample_env ''dsn'' batch_1 attempt_1 world_ABA) = db_ABA \<and>
   fst (ingest_one_file sample_env ''dsn'' batch_1 attempt_2
          (killed_before_archive sample_env ''dsn'' batch_1 attempt_1 world_ABA)) =
     Inr \<lparr>s_name = ''events_1.jsonl'',
          s_stats = \<lparr>rows_in_file = 3, rows_loaded = 0, rows_deduped = 3\<rparr>,
          s_archived = ARCHIVE_DIR @ [''events_1.jsonl'']\<rparr> \<and>
   raw_events (database (snd (ingest_one_file sample_env ''dsn'' batch_1 attempt_2
          (killed_before_archive sample_env ''dsn'' batch_1 attempt_1 world_ABA)))) =
     [row_A, row_B]"
proof -
  let ?w' = "snd (ingest_one_file sample_env ''dsn'' batch_1 attempt_1 world_ABA)"
  have rec: "load_and_record sample_env ''dsn'' batch_1 attempt_1 (disk world_ABA)
      (database world_ABA) = (Inr stats_ABA, db_ABA)"
    by (simp add: world_ABA_def sample_record_ABA)
  have src0: "node_at (disk world_ABA) batch_1 = Some (File batch_ABA)"
    and can: "can_archive (disk world_ABA) batch_1"
    by (simp_all add: world_ABA_def sample_staged)
  from ingest_one_file_success [OF rec src0 can] sample_paths(4) src0
  have moved: "disk ?w' \<noteq> disk world_ABA"
    by auto
  have nn: "pg_not_null sample_env ''event_id''"
    by (simp add: sample_env_simps)
  note c1 = C1_commit_before_archive [of sample_env "''dsn''" batch_1 attempt_1 world_ABA
      "fst (ingest_one_file sample_env ''dsn'' batch_1 attempt_1 world_ABA)" ?w'
      stats_ABA db_ABA attempt_2]
  from c1 moved rec have "database ?w' = db_ABA"
    by auto
  moreover from c1 rec nn can
  have "disk (killed_before_archive sample_env ''dsn'' batch_1 attempt_1 world_ABA) =
          disk world_ABA"
    "database (killed_before_archive sample_env ''dsn'' batch_1 attempt_1 world_ABA) = db_ABA"
    "fst (ingest_one_file sample_env ''dsn'' batch_1 attempt_2
          (killed_before_archive sample_env ''dsn'' batch_1 attempt_1 world_ABA)) =
     Inr \<lparr>s_name = ''events_1.jsonl'',
          s_stats = \<lparr>rows_in_file = 3, rows_loaded = 0, rows_deduped = 3\<rparr>,
          s_archived = ARCHIVE_DIR @ [''events_1.jsonl'']\<rparr>"
    "raw_events (database (snd (ingest_one_file sample_env ''dsn'' batch_1 attempt_2
          (killed_before_archive sample_env ''dsn'' batch_1 attempt_1 world_ABA)))) =
     [row_A, row_B]"
    by (auto simp: sample_paths stats_ABA_def db_ABA_def)
  ultimately show ?thesis
    using moved rec nn can by simp
qed

subsection \<open>C2: loading is idempotent\<close>

text \<open>
  Claim C2. Loading is idempotent, keyed by \<^verbatim>\<open>event_id\<close>: loading a batch that is already
  loaded returns \<^verbatim>\<open>rows_loaded = 0\<close> and leaves every row as it is.

  Let a load of the batch have succeeded and ended in the connection \<open>c1\<close>, and let the
  table declare \<^verbatim>\<open>event_id\<close> \<^verbatim>\<open>NOT NULL\<close>. Then on every connection \<open>c2\<close> whose transaction
  sees the ids that \<open>c1\<close> sees (\<open>c1\<close> itself, or a connection opened after the commit),
  loading the batch returns the same \<^verbatim>\<open>rows_in_file\<close>, \<^verbatim>\<open>rows_loaded = 0\<close>, and the
  connection as it was: no row is added, removed or changed.
\<close>

theorem C2_reload_idempotent:
  assumes "load_jsonl_file env d c p = (Inr stats, c1)"
    and "pg_not_null env ''event_id''"
    and "event_id ` set (raw_events (txn c1)) \<subseteq> event_id ` set (raw_events (txn c2))"
  shows "load_jsonl_file env d c2 p =
           (Inr \<lparr>rows_in_file = rows_in_file stats, rows_loaded = 0,
                 rows_deduped = rows_in_file stats\<rparr>, c2)"
  using assms by (rule load_reload)

theorem C2_witness:
  "load_jsonl_file sample_env (staged batch_ABA) (connect empty_db) batch_1 =
     (Inr stats_ABA, conn_ABA) \<and>
   pg_not_null sample_env ''event_id'' \<and>
   event_id ` set (raw_events (txn conn_ABA)) \<subseteq> event_id ` set (raw_events (txn (connect db_ABA))) \<and>
   load_jsonl_file sample_env (staged batch_ABA) (connect db_ABA) batch_1 =
     (Inr \<lparr>rows_in_file = 3, rows_loaded = 0, rows_deduped = 3\<rparr>, connect db_ABA)"
proof -
  have nn: "pg_not_null sample_env ''event_id''"
    by (simp add: sample_env_simps)
  have sub: "event_id ` set (raw_events (txn conn_ABA)) \<subseteq>
      event_id ` set (raw_events (txn (connect db_ABA)))"
    by (simp add: conn_ABA_def connect_def db_ABA_def empty_db_def add_row_def)
  from C2_reload_idempotent [OF sample_load_ABA nn sub] sample_load_ABA nn sub
  show ?thesis by (simp add: stats_ABA_def)
qed

subsection \<open>C3: the counts\<close>

text \<open>
  Claim C3. For every run produced by loading a batch,
  \<^verbatim>\<open>rows_in_file = rows_loaded + rows_deduped\<close>, and the three counts are not negative
  (so \<^verbatim>\<open>rows_loaded\<close> never exceeds \<^verbatim>\<open>rows_in_file\<close>).

  This holds of the \<open>FileStats\<close> that \<^verbatim>\<open>load_jsonl_file\<close> returns, and of every run record
  that the transaction block adds to \<^verbatim>\<open>ingestion_runs\<close>.
\<close>

theorem C3_counts_partition:
  "(load_jsonl_file env d c p = (Inr stats, c') \<longrightarrow>
      rows_in_file stats = rows_loaded stats + rows_deduped stats \<and>
      0 \<le> rows_loaded stats \<and> 0 \<le> rows_deduped stats \<and> 0 \<le> rows_in_file stats \<and>
      rows_loaded stats \<le> rows_in_file stats) \<and>
   (load_and_record env dsn p a d b = (res, b') \<and>
    run \<in> set (ingestion_runs b') \<and> run \<notin> set (ingestion_runs b) \<longrightarrow>
      rows_in_file run = rows_loaded run + rows_deduped run \<and>
      0 \<le> rows_loaded run \<and> 0 \<le> rows_deduped run \<and> 0 \<le> rows_in_file run \<and>
      rows_loaded run \<le> rows_in_file run)"
proof -
  have stats_ok: "rows_in_file s = rows_loaded s + rows_deduped s \<and>
      0 \<le> rows_loaded s \<and> 0 \<le> rows_deduped s \<and> 0 \<le> rows_in_file s \<and>
      rows_loaded s \<le> rows_in_file s"
    if "load_jsonl_file env d k p = (Inr s, k')" for s k k'
  proof -
    from that obtain ls n_in n_loaded where
      run: "load_lines env ls k 0 0 = (Inr (n_in, n_loaded), k')" and
      s: "s = \<lparr>rows_in_file = n_in, rows_loaded = n_loaded, rows_deduped = n_in - n_loaded\<rparr>"
      by (rule load_jsonl_file_success)
    from load_lines_counts [OF run] s show ?thesis by simp
  qed
  have run_ok: "rows_in_file run = rows_loaded run + rows_deduped run \<and>
      0 \<le> rows_loaded run \<and> 0 \<le> rows_deduped run \<and> 0 \<le> rows_in_file run \<and>
      rows_loaded run \<le> rows_in_file run"
    if run: "load_and_record env dsn p a d b = (res, b')"
      and new: "run \<in> set (ingestion_runs b')" "run \<notin> set (ingestion_runs b)"
  proof (cases res)
    case (Inl e)
    with run have "b' = b" by (auto dest: load_and_record_failure)
    with new show ?thesis by simp
  next
    case (Inr s)
    with run obtain c1 where
      load: "load_jsonl_file env d (connect b) p = (Inr s, c1)" and
      b': "b' = (txn c1)\<lparr>ingestion_runs := ingestion_runs (txn c1) @ [success_run a p s]\<rparr>"
      by (auto elim: load_and_record_success)
    from load obtain ls n_in n_loaded where
      "load_lines env ls (connect b) 0 0 = (Inr (n_in, n_loaded), c1)"
      by (rule load_jsonl_file_success)
    from load_lines_rows [OF this] have "ingestion_runs (txn c1) = ingestion_runs b"
      by (simp add: connect_def)
    with new b' have "run = success_run a p s" by simp
    with stats_ok [OF load] show ?thesis by simp
  qed
  from stats_ok run_ok show ?thesis by blast
qed

theorem C3_witness:
  "load_jsonl_file sample_env (staged batch_ABA) (connect empty_db) batch_1 =
     (Inr stats_ABA, conn_ABA) \<and>
   load_and_record sample_env ''dsn'' batch_1 attempt_1 (staged batch_ABA) empty_db =
     (Inr stats_ABA, db_ABA) \<and>
   success_run attempt_1 batch_1 stats_ABA \<in> set (ingestion_runs db_ABA) \<and>
   success_run attempt_1 batch_1 stats_ABA \<notin> set (ingestion_runs empty_db) \<and>
   rows_in_file stats_ABA = rows_loaded stats_ABA + rows_deduped stats_ABA \<and>
   0 \<le> rows_loaded stats_ABA \<and> 0 \<le> rows_deduped stats_ABA \<and>
   rows_loaded stats_ABA \<le> rows_in_file stats_ABA \<and>
   rows_in_file (success_run attempt_1 batch_1 stats_ABA) =
     rows_loaded (success_run attempt_1 batch_1 stats_ABA) +
     rows_deduped (success_run attempt_1 batch_1 stats_ABA)"
proof -
  have new: "success_run attempt_1 batch_1 stats_ABA \<in> set (ingestion_runs db_ABA)"
    "success_run attempt_1 batch_1 stats_ABA \<notin> set (ingestion_runs empty_db)"
    by (simp_all add: db_ABA_def empty_db_def)
  from C3_counts_partition [of sample_env "staged batch_ABA" "connect empty_db" batch_1
      stats_ABA conn_ABA "''dsn''" attempt_1 empty_db "Inr stats_ABA" db_ABA
      "success_run attempt_1 batch_1 stats_ABA"]
    sample_load_ABA sample_record_ABA [of "''dsn''"] new
  show ?thesis by simp
qed

subsection \<open>C4: a batch with an invalid record\<close>

text \<open>
  Claim C4, as amended. For every batch that holds a structurally invalid record (a line
  that cannot be decoded, or whose record the statement or the store rejects), the
  attempt commits no Event of the batch, \<^bold>\<open>writes no run record\<close>, raises a
  \<^verbatim>\<open>RuntimeError\<close> whose message starts with \<^verbatim>\<open>Failed to ingest\<close> and the name of the
  batch, and leaves the batch staged: the world after the attempt is the world before it.
\<close>

theorem C4_invalid_record_fails_batch:
  assumes "node_at (disk w) p = Some (File ls)"
    and "l \<in> set ls" "strip l \<noteq> []" "isl (line_row env (strip l))"
  shows "\<exists>e. ingest_one_file env dsn p a w =
               (Inl (Exn RuntimeError (''Failed to ingest '' @ path_name p @ '': '' @ exn_str e)),
                w)"
  using assms by (rule ingest_one_file_invalid)

theorem C4_witness:
  "node_at (disk world_bad) batch_1 = Some (File batch_bad) \<and>
   line_bad @ nl \<in> set batch_bad \<and>
   strip (line_bad @ nl) \<noteq> [] \<and>
   isl (line_row sample_env (strip (line_bad @ nl))) \<and>
   isl (fst (ingest_one_file sample_env ''dsn'' batch_1 attempt_1 world_bad)) \<and>
   snd (ingest_one_file sample_env ''dsn'' batch_1 attempt_1 world_bad) = world_bad"
proof -
  have h: "node_at (disk world_bad) batch_1 = Some (File batch_bad)"
    "line_bad @ nl \<in> set batch_bad"
    "strip (line_bad @ nl) \<noteq> []"
    "isl (line_row sample_env (strip (line_bad @ nl)))"
    by (simp_all add: world_bad_def sample_staged batch_bad_def sample_strip sample_nonblank
        sample_row_bad)
  from C4_invalid_record_fails_batch [OF h, of "''dsn''" attempt_1] h
  show ?thesis by auto
qed

text \<open>
  The claim as stated asks for one run record with status \<^verbatim>\<open>failed\<close>. The batch of a
  valid line, an undecodable line and a valid line leaves \<^verbatim>\<open>ingestion_runs\<close> empty.
\<close>

theorem C4_counterexample:
  "line_bad @ nl \<in> set batch_bad \<and>
   isl (line_row sample_env (strip (line_bad @ nl))) \<and>
   ingestion_runs (database (snd (ingest_one_file sample_env ''dsn'' batch_1 attempt_1
     world_bad))) = []"
proof -
  have h: "node_at (disk world_bad) batch_1 = Some (File batch_bad)"
    "line_bad @ nl \<in> set batch_bad"
    "strip (line_bad @ nl) \<noteq> []"
    "isl (line_row sample_env (strip (line_bad @ nl)))"
    by (simp_all add: world_bad_def sample_staged batch_bad_def sample_strip sample_nonblank
        sample_row_bad)
  from ingest_one_file_invalid [OF h, of "''dsn''" attempt_1]
  have "snd (ingest_one_file sample_env ''dsn'' batch_1 attempt_1 world_bad) = world_bad"
    by auto
  with h show ?thesis by (simp add: world_bad_def empty_db_def)
qed

subsection \<open>C5: the batches after a failing one\<close>

text \<open>
  Claim C5, as amended. Batch failures are not isolated: the loop of \<^verbatim>\<open>main\<close> ingests the
  discovered batches in order, and when the attempt for one batch fails, the failure is
  raised out of the loop at once; \<^bold>\<open>no batch discovered after it is attempted\<close>,
  whatever those batches are, and the world is the one the failing attempt left.
\<close>

theorem C5_first_failure_stops:
  assumes "ingest_files env dsn att ps w = (Inr ss, w1)"
    and "ingest_one_file env dsn p (att p) w1 = (Inl e, w2)"
  shows "ingest_files env dsn att (ps @ p # qs) w = (Inl e, w2)"
  using ingest_files_append [OF assms(1), of "p # qs"] assms(2) by simp

theorem C5_witness:
  "ingest_files sample_env ''dsn'' sample_clock [] world_two = (Inr [], world_two) \<and>
   ingest_one_file sample_env ''dsn'' batch_1 (sample_clock batch_1) world_two =
     (Inl (Exn RuntimeError
        ''Failed to ingest events_1.jsonl: Expecting value: line 1 column 1 (char 0)''),
      world_two) \<and>
   ingest_files sample_env ''dsn'' sample_clock ([] @ batch_1 # [batch_2]) world_two =
     (Inl (Exn RuntimeError
        ''Failed to ingest events_1.jsonl: Expecting value: line 1 column 1 (char 0)''),
      world_two)"
proof -
  have a: "ingest_files sample_env ''dsn'' sample_clock [] world_two = (Inr [], world_two)"
    by simp
  note b = sample_ingest_bad_first [of "''dsn''" "sample_clock batch_1"]
  from C5_first_failure_stops [OF a b, of "[batch_2]"] a b show ?thesis by simp
qed

text \<open>
  Two batches are staged; the first cannot be decoded, the second is valid and
  \<^verbatim>\<open>ingest_one_file\<close> on it succeeds. \<^verbatim>\<open>main\<close> raises and leaves the world as it was: the
  second batch has not been attempted.
\<close>

theorem C5_counterexample:
  "staged_files (disk world_two) = [batch_1, batch_2] \<and>
   isl (fst (main sample_env (Some ''dsn'') sample_clock world_two)) \<and>
   snd (main sample_env (Some ''dsn'') sample_clock world_two) = world_two \<and>
   fst (ingest_one_file sample_env ''dsn'' batch_2 (sample_clock batch_2) world_two) =
     Inr \<lparr>s_name = ''events_2.jsonl'',
          s_stats = \<lparr>rows_in_file = 1, rows_loaded = 1, rows_deduped = 0\<rparr>,
          s_archived = ARCHIVE_DIR @ [''events_2.jsonl'']\<rparr> \<and>
   snd (ingest_one_file sample_env ''dsn'' batch_2 (sample_clock batch_2) world_two) \<noteq> world_two"
proof -
  have files: "staged_files (disk world_two) = [batch_1, batch_2]"
    by (simp add: world_two_def sample_staged_files)
  have m: "main sample_env (Some ''dsn'') sample_clock world_two =
     (Inl (Exn RuntimeError
        ''Failed to ingest events_1.jsonl: Expecting value: line 1 column 1 (char 0)''),
      world_two)"
    by (simp add: main_def get_dsn_def files sample_ingest_bad_first)
  have rec: "load_and_record sample_env ''dsn'' batch_2 (sample_clock batch_2) (disk world_two)
      (database world_two) =
     (Inr \<lparr>rows_in_file = 1, rows_loaded = 1, rows_deduped = 0\<rparr>,
      \<lparr>raw_events = [row_B],
       ingestion_runs = [success_run (sample_clock batch_2) batch_2
          \<lparr>rows_in_file = 1, rows_loaded = 1, rows_deduped = 0\<rparr>]\<rparr>)"
    by (simp add: world_two_def sample_record_B)
  have src0: "node_at (disk world_two) batch_2 = Some (File [line_B @ nl])"
    and can: "can_archive (disk world_two) batch_2"
    by (simp_all add: world_two_def sample_two)
  from ingest_one_file_success [OF rec src0 can] obtain d' where
    run: "ingest_one_file sample_env ''dsn'' batch_2 (sample_clock batch_2) world_two =
      (Inr \<lparr>s_name = path_name batch_2,
            s_stats = \<lparr>rows_in_file = 1, rows_loaded = 1, rows_deduped = 0\<rparr>,
            s_archived = archive_dest batch_2\<rparr>,
       \<lparr>disk = d',
        database = \<lparr>raw_events = [row_B],
          ingestion_runs = [success_run (sample_clock batch_2) batch_2
            \<lparr>rows_in_file = 1, rows_loaded = 1, rows_deduped = 0\<rparr>]\<rparr>\<rparr>)"
    by blast
  have "\<lparr>disk = d',
        database = \<lparr>raw_events = [row_B],
          ingestion_runs = [success_run (sample_clock batch_2) batch_2
            \<lparr>rows_in_file = 1, rows_loaded = 1, rows_deduped = 0\<rparr>]\<rparr>\<rparr> \<noteq> world_two"
    by (simp add: world_two_def empty_db_def)
  with files m run show ?thesis
    by (simp add: sample_paths archive_dest_def)
qed

subsection \<open>C6: required fields\<close>

text \<open>
  Claim C6, as amended. For every record that decodes to an object: if one of
  \<^verbatim>\<open>event_id\<close>, \<^verbatim>\<open>event_time\<close>, \<^verbatim>\<open>ingestion_time\<close>, \<^verbatim>\<open>event_name\<close>, \<^verbatim>\<open>user_id\<close>, \<^verbatim>\<open>session_id\<close>
  is missing, the record fails with psycopg's \<^verbatim>\<open>ProgrammingError\<close> for a missing query
  parameter; if the value of one of these or of \<^verbatim>\<open>device\<close> is rejected by the store for its
  column (the cast fails, or the value is \<^verbatim>\<open>NULL\<close> and the column is \<^verbatim>\<open>NOT NULL\<close>), the
  record fails; in all these cases no row is built, so nothing is inserted for it. The
  loader itself checks no type and raises no \<^verbatim>\<open>SchemaViolation\<close>. \<^bold>\<open>A missing \<^verbatim>\<open>device\<close>
  is not an error\<close>: when the six keys are present the loader raises nothing, all ten
  placeholders are bound, \<^verbatim>\<open>device\<close> to \<^verbatim>\<open>None\<close>, which is sent as \<^verbatim>\<open>NULL\<close>; the store
  alone decides, and on a table whose \<^verbatim>\<open>device\<close> column may be \<^verbatim>\<open>NULL\<close> a record that
  would be inserted with some device is inserted without one, with \<^verbatim>\<open>device\<close> \<^verbatim>\<open>NULL\<close>.

  The six conjuncts are, in this order: a missing required key; a value the cast
  rejects; a \<^verbatim>\<open>NULL\<close> in a \<^verbatim>\<open>NOT NULL\<close> column; the row of a record without \<^verbatim>\<open>device\<close> has
  \<^verbatim>\<open>device\<close> \<^verbatim>\<open>NULL\<close>; a record with the six keys and without \<^verbatim>\<open>device\<close> is decoded and
  bound, the ninth value being \<^verbatim>\<open>None\<close>, and its row is the server's; on a nullable
  column that row exists whenever it exists for some device \<open>dv\<close>.
\<close>

theorem C6_required_fields:
  assumes "json_loads env line = Inr (JObj obj)"
  shows "(k \<in> set REQUIRED \<and> map_of obj k = None \<longrightarrow>
            (\<exists>m. line_row env line = Inl (Exn ProgrammingError m))) \<and>
         (k \<in> set (REQUIRED @ [''device'']) \<and> dict_get obj k \<noteq> JNull \<and>
          pg_cast env k (dict_get obj k) = Inl m \<longrightarrow> isl (line_row env line)) \<and>
         (k \<in> set (REQUIRED @ [''device'']) \<and> dict_get obj k = JNull \<and> pg_not_null env k \<longrightarrow>
            isl (line_row env line)) \<and>
         (map_of obj ''device'' = None \<and> line_row env line = Inr r \<longrightarrow> device r = JNull) \<and>
         (None \<notin> set (map (map_of obj) REQUIRED) \<and> map_of obj ''device'' = None \<longrightarrow>
            (\<exists>obj'. decode_line env line = Inr obj' \<and>
                    query_params obj' = Inr (bound_values env obj)) \<and>
            bound_values env obj ! 8 = JNull \<and>
            line_row env line = sql_row env (bound_values env obj)) \<and>
         (None \<notin> set (map (map_of obj) REQUIRED) \<and> map_of obj ''device'' = None \<and>
          \<not> pg_not_null env ''device'' \<and>
          sql_row env ((bound_values env obj)[8 := dv]) = Inr r' \<longrightarrow>
            line_row env line = Inr (r'\<lparr>device := JNull\<rparr>))"
proof -
  from decode_line_keys [OF assms] obtain obj' where
    d: "decode_line env line = Inr obj'" and
    req: "\<And>k. k \<in> set REQUIRED \<Longrightarrow> map_of obj' k = map_of obj k"
    by blast
  have a: "\<exists>m. line_row env line = Inl (Exn ProgrammingError m)"
    if "k \<in> set REQUIRED \<and> map_of obj k = None"
  proof -
    from that req have "map_of obj' k = None" by simp
    moreover from that have "k \<in> set INSERT_COLUMNS"
      by (auto simp: REQUIRED_def INSERT_COLUMNS_def)
    ultimately obtain m where "query_params obj' = Inl (Exn ProgrammingError m)"
      using query_params_missing by blast
    with d show ?thesis by (simp add: line_row_def)
  qed
  have b: "isl (line_row env line)"
    if "k \<in> set (REQUIRED @ [''device'']) \<and> dict_get obj k \<noteq> JNull \<and>
          pg_cast env k (dict_get obj k) = Inl m"
  proof (cases "line_row env line")
    case (Inl e)
    then show ?thesis by simp
  next
    case (Inr r')
    from line_row_bound [OF assms _ Inr, of k] that show ?thesis
      by (auto simp: sql_value_def)
  qed
  have c: "isl (line_row env line)"
    if "k \<in> set (REQUIRED @ [''device'']) \<and> dict_get obj k = JNull \<and> pg_not_null env k"
  proof (cases "line_row env line")
    case (Inl e)
    then show ?thesis by simp
  next
    case (Inr r')
    from line_row_bound [OF assms _ Inr, of k] that show ?thesis
      by (auto simp: sql_value_def)
  qed
  have e: "device r = JNull" if "map_of obj ''device'' = None \<and> line_row env line = Inr r"
  proof -
    from that have "line_row env line = Inr r" "dict_get obj ''device'' = JNull"
      by (simp_all add: dict_get_def)
    with line_row_bound [OF assms, of "''device''" r] show ?thesis
      by (auto simp: sql_value_def)
  qed
  have len: "length (bound_values env obj) = 10"
    by (simp add: bound_values_def REQUIRED_def)
  have nth8: "bound_values env obj ! 8 = JNull" if "map_of obj ''device'' = None"
    using that by (simp add: bound_values_def REQUIRED_def dict_get_def)
  have f: "(\<exists>obj'. decode_line env line = Inr obj' \<and>
                    query_params obj' = Inr (bound_values env obj)) \<and>
            bound_values env obj ! 8 = JNull \<and>
            line_row env line = sql_row env (bound_values env obj)"
    if "None \<notin> set (map (map_of obj) REQUIRED) \<and> map_of obj ''device'' = None"
    using that decode_line_params [OF assms] line_row_bound_values [OF assms] nth8
    by blast
  have g: "line_row env line = Inr (r'\<lparr>device := JNull\<rparr>)"
    if h: "None \<notin> set (map (map_of obj) REQUIRED) \<and> map_of obj ''device'' = None \<and>
          \<not> pg_not_null env ''device'' \<and>
          sql_row env ((bound_values env obj)[8 := dv]) = Inr r'"
  proof -
    from h nth8 have "(bound_values env obj)[8 := JNull] = bound_values env obj"
      by (metis list_update_id)
    with sql_row_null_device [OF len, of env dv r'] h
    have "sql_row env (bound_values env obj) = Inr (r'\<lparr>device := JNull\<rparr>)"
      by simp
    with line_row_bound_values [OF assms] h show ?thesis by simp
  qed
  from a b c e f g show ?thesis by blast
qed

theorem C6_witness:
  "json_loads sample_env line_no_user = Inr (JObj obj_no_user) \<and>
   ''user_id'' \<in> set REQUIRED \<and> map_of obj_no_user ''user_id'' = None \<and>
   isl (line_row sample_env line_no_user) \<and>
   json_loads sample_env line_bad_user = Inr (JObj obj_bad_user) \<and>
   ''user_id'' \<in> set (REQUIRED @ [''device'']) \<and>
   dict_get obj_bad_user ''user_id'' \<noteq> JNull \<and>
   pg_cast sample_env ''user_id'' (dict_get obj_bad_user ''user_id'') =
     Inl ''invalid input syntax for type bigint'' \<and>
   isl (line_row sample_env line_bad_user) \<and>
   json_loads sample_env line_null_id = Inr (JObj obj_null_id) \<and>
   ''event_id'' \<in> set (REQUIRED @ [''device'']) \<and>
   dict_get obj_null_id ''event_id'' = JNull \<and> pg_not_null sample_env ''event_id'' \<and>
   isl (line_row sample_env line_null_id) \<and>
   json_loads sample_env line_no_device = Inr (JObj obj_no_device) \<and>
   map_of obj_no_device ''device'' = None \<and>
   line_row sample_env line_no_device = Inr row_no_device \<and>
   device row_no_device = JNull \<and>
   None \<notin> set (map (map_of obj_no_device) REQUIRED) \<and>
   bound_values sample_env obj_no_device ! 8 = JNull \<and>
   line_row sample_env line_no_device = sql_row sample_env (bound_values sample_env obj_no_device) \<and>
   \<not> pg_not_null sample_env ''device'' \<and>
   sql_row sample_env ((bound_values sample_env obj_no_device)[8 := JStr ''web'']) =
     Inr (row_no_device\<lparr>device := JStr ''web''\<rparr>) \<and>
   line_row sample_env line_no_device =
     Inr (row_no_device\<lparr>device := JStr ''web'', device := JNull\<rparr>)"
proof -
  have a: "''user_id'' \<in> set REQUIRED" "map_of obj_no_user ''user_id'' = None"
    by (simp_all add: REQUIRED_def obj_no_user_def)
  have b: "''user_id'' \<in> set (REQUIRED @ [''device''])"
    "dict_get obj_bad_user ''user_id'' \<noteq> JNull"
    "pg_cast sample_env ''user_id'' (dict_get obj_bad_user ''user_id'') =
       Inl ''invalid input syntax for type bigint''"
    by (simp_all add: REQUIRED_def obj_bad_user_def dict_get_def sample_env_def)
  have c: "''event_id'' \<in> set (REQUIRED @ [''device''])"
    "dict_get obj_null_id ''event_id'' = JNull" "pg_not_null sample_env ''event_id''"
    by (simp_all add: REQUIRED_def obj_null_id_def dict_get_def sample_env_def)
  have d: "map_of obj_no_device ''device'' = None"
    "None \<notin> set (map (map_of obj_no_device) REQUIRED)"
    "\<not> pg_not_null sample_env ''device''"
    by (simp_all add: obj_no_device_def REQUIRED_def sample_env_def)
  have web: "sql_row sample_env ((bound_values sample_env obj_no_device)[8 := JStr ''web'']) =
     Inr (row_no_device\<lparr>device := JStr ''web''\<rparr>)"
    by (simp add: bound_values_def REQUIRED_def obj_no_device_def dict_get_def sample_env_simps
        sql_row_def INSERT_COLUMNS_def sql_value_def null_violation_def row_no_device_def)
  from C6_required_fields [OF sample_decoded(5), of "''user_id''" "''x''" row_A JNull row_A] a
  have 1: "isl (line_row sample_env line_no_user)" by auto
  from C6_required_fields [OF sample_decoded(6), of "''user_id''"
      "''invalid input syntax for type bigint''" row_A JNull row_A] b
  have 2: "isl (line_row sample_env line_bad_user)" by blast
  from C6_required_fields [OF sample_decoded(7), of "''event_id''" "''x''" row_A JNull row_A] c
  have 3: "isl (line_row sample_env line_null_id)" by blast
  note c6 = C6_required_fields [OF sample_decoded(4), of "''user_id''" "''x''" row_no_device
      "JStr ''web''" "row_no_device\<lparr>device := JStr ''web''\<rparr>"]
  from c6 d(1) sample_rows(4)
  have 4: "device row_no_device = JNull" by blast
  from c6 d(1,2)
  have 5: "bound_values sample_env obj_no_device ! 8 = JNull"
    "line_row sample_env line_no_device = sql_row sample_env (bound_values sample_env obj_no_device)"
    by blast+
  from c6 d web
  have 6: "line_row sample_env line_no_device =
     Inr (row_no_device\<lparr>device := JStr ''web'', device := JNull\<rparr>)"
    by blast
  from a b c d 1 2 3 4 5 6 web sample_decoded(4-7) sample_rows(4) show ?thesis by blast
qed

text \<open>
  The claim as stated counts \<^verbatim>\<open>device\<close> among the fields whose absence fails the record
  in validation. For a record without \<^verbatim>\<open>device\<close> the loader raises nothing: the row is the
  one the server builds from the bound values, of which the ninth is \<^verbatim>\<open>None\<close>. On a
  table that lets the column be \<^verbatim>\<open>NULL\<close> the record is loaded, and its row has \<^verbatim>\<open>device\<close>
  \<^verbatim>\<open>NULL\<close>.
\<close>

theorem C6_counterexample:
  "json_loads sample_env line_no_device = Inr (JObj obj_no_device) \<and>
   map_of obj_no_device ''device'' = None \<and>
   line_row sample_env line_no_device =
     sql_row sample_env (bound_values sample_env obj_no_device) \<and>
   bound_values sample_env obj_no_device ! 8 = JNull \<and>
   load_jsonl_file sample_env (staged [line_no_device @ nl]) (connect empty_db) batch_1 =
     (Inr \<lparr>rows_in_file = 1, rows_loaded = 1, rows_deduped = 0\<rparr>,
      add_row row_no_device (connect empty_db)) \<and>
   raw_events (txn (add_row row_no_device (connect empty_db))) = [row_no_device] \<and>
   device row_no_device = JNull"
proof -
  have none: "map_of obj_no_device ''device'' = None"
    "None \<notin> set (map (map_of obj_no_device) REQUIRED)"
    by (simp_all add: obj_no_device_def REQUIRED_def)
  have "raw_events (txn (add_row row_no_device (connect empty_db))) = [row_no_device]"
    by (simp add: connect_def empty_db_def)
  moreover have "device row_no_device = JNull"
    by (simp add: row_no_device_def)
  moreover have "bound_values sample_env obj_no_device ! 8 = JNull"
    by (simp add: bound_values_def REQUIRED_def obj_no_device_def dict_get_def)
  moreover note line_row_bound_values [OF sample_decoded(4) none(2)]
  ultimately show ?thesis
    using none(1) sample_decoded(4) sample_load_no_device by blast
qed

subsection \<open>C7: a name that is taken in the archive\<close>

text \<open>
  Claim C7, as amended. For every batch whose archive destination already holds a file
  of the same name (in an archive directory that exists), archiving does not fail: the
  incoming file is moved to the destination and \<^bold>\<open>replaces the file that was
  there\<close>. The incoming file is not lost; the content of the file archived before is.
\<close>

theorem C7_archive_replaces:
  assumes "node_at d p = Some (File new)"
    and "node_at d (archive_dest p) = Some (File old)"
    and "path_name p \<noteq> []"
    and "is_dir d [''data'']" "is_dir d ARCHIVE_DIR"
  shows "\<exists>d'. archive_file d p = (Inr (archive_dest p), d') \<and>
               node_at d' (archive_dest p) = Some (File new)"
proof -
  from assms(2-5) have "can_archive d p"
    by (simp add: can_archive_def is_file_def is_dir_def)
  from archive_file_ok [OF assms(1) this] show ?thesis by blast
qed

theorem C7_witness:
  "node_at staged_dup batch_1 = Some (File [line_B @ nl]) \<and>
   node_at staged_dup (archive_dest batch_1) = Some (File [line_A @ nl]) \<and>
   path_name batch_1 \<noteq> [] \<and> is_dir staged_dup [''data''] \<and> is_dir staged_dup ARCHIVE_DIR \<and>
   fst (archive_file staged_dup batch_1) = Inr (archive_dest batch_1) \<and>
   node_at (snd (archive_file staged_dup batch_1)) (archive_dest batch_1) =
     Some (File [line_B @ nl])"
  using C7_archive_replaces [OF sample_dup(1-5)] sample_dup by auto

text \<open>
  The claim as stated asks that archiving fail rather than overwrite. Here the archive
  holds a file of the batch's name with other content; archiving returns normally and
  the destination holds the content of the batch.
\<close>

theorem C7_counterexample:
  "node_at staged_dup (archive_dest batch_1) = Some (File [line_A @ nl]) \<and>
   line_A @ nl \<noteq> line_B @ nl \<and>
   fst (archive_file staged_dup batch_1) = Inr (archive_dest batch_1) \<and>
   node_at (snd (archive_file staged_dup batch_1)) (archive_dest batch_1) =
     Some (File [line_B @ nl])"
  using archive_file_ok [OF sample_dup(1) sample_dup(6)] sample_dup(2) sample_lines_differ
  by auto

subsection \<open>C8: a duplicate inside a batch\<close>

text \<open>
  Claim C8. A valid batch of three records with the event ids A, B, A, loaded into an
  empty store: the run reports \<^verbatim>\<open>rows_in_file = 3\<close>, \<^verbatim>\<open>rows_loaded = 2\<close>,
  \<^verbatim>\<open>rows_deduped = 1\<close> with status \<^verbatim>\<open>success\<close>, the batch is archived, and one Event with
  id A is in the store, the one seen first.

  The three lines have the rows \<open>r1\<close>, \<open>r2\<close>, \<open>r3\<close>; \<open>r3\<close> has the id of \<open>r1\<close> (its other
  columns are free) and \<open>r2\<close> another id. The table is then \<open>[r1, r2]\<close>.
\<close>

theorem C8_duplicate_in_batch:
  assumes src0: "node_at (disk w) p = Some (File [l1, l2, l3])"
    and nonblank: "strip l1 \<noteq> []" "strip l2 \<noteq> []" "strip l3 \<noteq> []"
    and rows: "line_row env (strip l1) = Inr r1" "line_row env (strip l2) = Inr r2"
      "line_row env (strip l3) = Inr r3"
    and ids: "event_id r1 \<noteq> JNull" "event_id r3 = event_id r1" "event_id r2 \<noteq> event_id r1"
    and empty: "raw_events (database w) = []"
    and conn: "pg_connect env dsn = None"
    and can: "can_archive (disk w) p" "p \<noteq> archive_dest p"
  shows "\<exists>d'. ingest_one_file env dsn p a w =
           (Inr \<lparr>s_name = path_name p,
                 s_stats = \<lparr>rows_in_file = 3, rows_loaded = 2, rows_deduped = 1\<rparr>,
                 s_archived = archive_dest p\<rparr>,
            \<lparr>disk = d',
             database = \<lparr>raw_events = [r1, r2],
                         ingestion_runs = ingestion_runs (database w) @
                           [success_run a p \<lparr>rows_in_file = 3, rows_loaded = 2, rows_deduped = 1\<rparr>]\<rparr>\<rparr>) \<and>
         node_at d' (archive_dest p) = Some (File [l1, l2, l3]) \<and> node_at d' p = None"
proof -
  note rec = load_and_record_three [OF src0 nonblank rows ids empty conn, of a]
  from ingest_one_file_success [OF rec src0 can(1)] can(2) show ?thesis by blast
qed

theorem C8_witness:
  "node_at (disk world_ABA) batch_1 = Some (File [line_A @ nl, line_B @ nl, line_A2 @ nl]) \<and>
   strip (line_A @ nl) \<noteq> [] \<and> strip (line_B @ nl) \<noteq> [] \<and> strip (line_A2 @ nl) \<noteq> [] \<and>
   line_row sample_env (strip (line_A @ nl)) = Inr row_A \<and>
   line_row sample_env (strip (line_B @ nl)) = Inr row_B \<and>
   line_row sample_env (strip (line_A2 @ nl)) = Inr row_A2 \<and>
   event_id row_A \<noteq> JNull \<and> event_id row_A2 = event_id row_A \<and>
   event_id row_B \<noteq> event_id row_A \<and> row_A2 \<noteq> row_A \<and>
   raw_events (database world_ABA) = [] \<and>
   pg_connect sample_env ''dsn'' = None \<and>
   can_archive (disk world_ABA) batch_1 \<and> batch_1 \<noteq> archive_dest batch_1 \<and>
   fst (ingest_one_file sample_env ''dsn'' batch_1 attempt_1 world_ABA) =
     Inr \<lparr>s_name = ''events_1.jsonl'', s_stats = stats_ABA,
          s_archived = ARCHIVE_DIR @ [''events_1.jsonl'']\<rparr> \<and>
   database (snd (ingest_one_file sample_env ''dsn'' batch_1 attempt_1 world_ABA)) = db_ABA \<and>
   node_at (disk (snd (ingest_one_file sample_env ''dsn'' batch_1 attempt_1 world_ABA)))
     (archive_dest batch_1) = Some (File batch_ABA) \<and>
   node_at (disk (snd (ingest_one_file sample_env ''dsn'' batch_1 attempt_1 world_ABA)))
     batch_1 = None"
proof -
  have h: "node_at (disk world_ABA) batch_1 = Some (File [line_A @ nl, line_B @ nl, line_A2 @ nl])"
    "strip (line_A @ nl) \<noteq> []" "strip (line_B @ nl) \<noteq> []" "strip (line_A2 @ nl) \<noteq> []"
    "line_row sample_env (strip (line_A @ nl)) = Inr row_A"
    "line_row sample_env (strip (line_B @ nl)) = Inr row_B"
    "line_row sample_env (strip (line_A2 @ nl)) = Inr row_A2"
    "event_id row_A \<noteq> JNull" "event_id row_A2 = event_id row_A"
    "event_id row_B \<noteq> event_id row_A"
    "raw_events (database world_ABA) = []"
    "pg_connect sample_env ''dsn'' = None"
    "can_archive (disk world_ABA) batch_1" "batch_1 \<noteq> archive_dest batch_1"
    using sample_ids sample_paths(4)
    by (simp_all add: world_ABA_def sample_staged batch_ABA_def [symmetric] sample_strip
        sample_nonblank sample_rows sample_env_simps empty_db_def)
  from C8_duplicate_in_batch [OF h, of attempt_1] obtain d' where
    "ingest_one_file sample_env ''dsn'' batch_1 attempt_1 world_ABA =
       (Inr \<lparr>s_name = path_name batch_1,
             s_stats = \<lparr>rows_in_file = 3, rows_loaded = 2, rows_deduped = 1\<rparr>,
             s_archived = archive_dest batch_1\<rparr>,
        \<lparr>disk = d',
         database = \<lparr>raw_events = [row_A, row_B],
           ingestion_runs = ingestion_runs (database world_ABA) @
             [success_run attempt_1 batch_1
                \<lparr>rows_in_file = 3, rows_loaded = 2, rows_deduped = 1\<rparr>]\<rparr>\<rparr>)"
    "node_at d' (archive_dest batch_1) = Some (File [line_A @ nl, line_B @ nl, line_A2 @ nl])"
    "node_at d' batch_1 = None"
    by blast
  then have
    "fst (ingest_one_file sample_env ''dsn'' batch_1 attempt_1 world_ABA) =
       Inr \<lparr>s_name = ''events_1.jsonl'', s_stats = stats_ABA,
            s_archived = ARCHIVE_DIR @ [''events_1.jsonl'']\<rparr>"
    "database (snd (ingest_one_file sample_env ''dsn'' batch_1 attempt_1 world_ABA)) = db_ABA"
    "node_at (disk (snd (ingest_one_file sample_env ''dsn'' batch_1 attempt_1 world_ABA)))
       (archive_dest batch_1) = Some (File batch_ABA)"
    "node_at (disk (snd (ingest_one_file sample_env ''dsn'' batch_1 attempt_1 world_ABA)))
       batch_1 = None"
    by (simp_all add: sample_paths(1,3) stats_ABA_def db_ABA_def world_ABA_def empty_db_def
        batch_ABA_def)
  with h sample_ids(4) show ?thesis
    by blast
qed

subsection \<open>C9: blank lines and the empty batch\<close>

text \<open>
  Claim C9. Blank lines are skipped and add nothing to \<^verbatim>\<open>rows_in_file\<close>; a batch without
  a non-blank line is valid: its run has the three counts 0 and status \<^verbatim>\<open>success\<close>, and
  the batch is archived.

  First part: the loop does on a list of lines what it does on the list without its
  blank lines. Second part: \<^verbatim>\<open>rows_in_file\<close> is the number of records, the non-blank lines.
  Third part: on a batch without records, with the server reachable and the file system
  letting the file be archived, \<^verbatim>\<open>ingest_one_file\<close> returns the counts 0, has added the
  run record with status \<^verbatim>\<open>success\<close> and nothing else to the store, and the file is at the
  archive destination and no longer staged.
\<close>

theorem C9_blank_lines:
  "load_lines env ls c n_in n_loaded =
     load_lines env (filter (\<lambda>l. strip l \<noteq> []) ls) c n_in n_loaded \<and>
   (node_at d p = Some (File ls) \<and> load_jsonl_file env d c p = (Inr stats, c') \<longrightarrow>
      rows_in_file stats = int (length (records ls))) \<and>
   (node_at (disk w) p = Some (File ls) \<and> records ls = [] \<and>
    pg_connect env dsn = None \<and> can_archive (disk w) p \<and> p \<noteq> archive_dest p \<longrightarrow>
      (\<exists>d'. ingest_one_file env dsn p a w =
               (Inr \<lparr>s_name = path_name p,
                     s_stats = \<lparr>rows_in_file = 0, rows_loaded = 0, rows_deduped = 0\<rparr>,
                     s_archived = archive_dest p\<rparr>,
                \<lparr>disk = d',
                 database = (database w)\<lparr>ingestion_runs := ingestion_runs (database w) @
                   [success_run a p \<lparr>rows_in_file = 0, rows_loaded = 0, rows_deduped = 0\<rparr>]\<rparr>\<rparr>) \<and>
             node_at d' (archive_dest p) = Some (File ls) \<and> node_at d' p = None))"
proof -
  have one: "load_lines env ls c n_in n_loaded =
     load_lines env (filter (\<lambda>l. strip l \<noteq> []) ls) c n_in n_loaded"
    by (rule load_lines_skip_blank)
  have two: "rows_in_file stats = int (length (records ls))"
    if h: "node_at d p = Some (File ls) \<and> load_jsonl_file env d c p = (Inr stats, c')"
  proof -
    from h obtain ls' a' b' where
      "node_at d p = Some (File ls')"
      "load_lines env ls' c 0 0 = (Inr (a', b'), c')"
      "stats = \<lparr>rows_in_file = a', rows_loaded = b', rows_deduped = a' - b'\<rparr>"
      by (auto elim: load_jsonl_file_success)
    with h load_lines_counts [of env ls c 0 0 a' b' c'] show ?thesis by simp
  qed
  have three: "\<exists>d'. ingest_one_file env dsn p a w =
               (Inr \<lparr>s_name = path_name p,
                     s_stats = \<lparr>rows_in_file = 0, rows_loaded = 0, rows_deduped = 0\<rparr>,
                     s_archived = archive_dest p\<rparr>,
                \<lparr>disk = d',
                 database = (database w)\<lparr>ingestion_runs := ingestion_runs (database w) @
                   [success_run a p \<lparr>rows_in_file = 0, rows_loaded = 0, rows_deduped = 0\<rparr>]\<rparr>\<rparr>) \<and>
             node_at d' (archive_dest p) = Some (File ls) \<and> node_at d' p = None"
    if h: "node_at (disk w) p = Some (File ls) \<and> records ls = [] \<and>
      pg_connect env dsn = None \<and> can_archive (disk w) p \<and> p \<noteq> archive_dest p"
  proof -
    from h have "length (filter (\<lambda>l. strip l \<noteq> []) ls) = 0"
      by (simp add: length_records [symmetric])
    then have "filter (\<lambda>l. strip l \<noteq> []) ls = []" by simp
    then have "\<And>k. load_lines env ls k 0 0 = (Inr (0, 0), k)"
      by (simp add: load_lines_skip_blank [of env ls])
    with h have "load_and_record env dsn p a (disk w) (database w) =
        (Inr \<lparr>rows_in_file = 0, rows_loaded = 0, rows_deduped = 0\<rparr>,
         (database w)\<lparr>ingestion_runs := ingestion_runs (database w) @
            [success_run a p \<lparr>rows_in_file = 0, rows_loaded = 0, rows_deduped = 0\<rparr>]\<rparr>)"
      by (simp add: load_and_record_def load_jsonl_file_def insert_ingestion_run_def
          commit_def connect_def int4_def)
    from ingest_one_file_success [OF this] h show ?thesis by blast
  qed
  from one two three show ?thesis by blast
qed

theorem C9_witness:
  "node_at (staged batch_ABA) batch_1 = Some (File batch_ABA) \<and>
   load_jsonl_file sample_env (staged batch_ABA) (connect empty_db) batch_1 =
     (Inr stats_ABA, conn_ABA) \<and>
   rows_in_file stats_ABA = int (length (records batch_ABA)) \<and>
   node_at (disk world_blank) batch_1 = Some (File batch_blank) \<and>
   records batch_blank = [] \<and>
   pg_connect sample_env ''dsn'' = None \<and>
   can_archive (disk world_blank) batch_1 \<and> batch_1 \<noteq> archive_dest batch_1 \<and>
   fst (ingest_one_file sample_env ''dsn'' batch_1 attempt_1 world_blank) =
     Inr \<lparr>s_name = ''events_1.jsonl'', s_stats = stats_0,
          s_archived = ARCHIVE_DIR @ [''events_1.jsonl'']\<rparr> \<and>
   database (snd (ingest_one_file sample_env ''dsn'' batch_1 attempt_1 world_blank)) =
     \<lparr>raw_events = [], ingestion_runs = [success_run attempt_1 batch_1 stats_0]\<rparr> \<and>
   node_at (disk (snd (ingest_one_file sample_env ''dsn'' batch_1 attempt_1 world_blank)))
     (archive_dest batch_1) = Some (File batch_blank) \<and>
   node_at (disk (snd (ingest_one_file sample_env ''dsn'' batch_1 attempt_1 world_blank)))
     batch_1 = None"
proof -
  have h: "node_at (disk world_blank) batch_1 = Some (File batch_blank)"
    "records batch_blank = []"
    "pg_connect sample_env ''dsn'' = None"
    "can_archive (disk world_blank) batch_1" "batch_1 \<noteq> archive_dest batch_1"
    using sample_paths(4)
    by (simp_all add: world_blank_def sample_staged sample_records_blank sample_env_simps)
  from C9_blank_lines [of sample_env batch_blank "connect empty_db" 0 0 "staged batch_blank"
      batch_1 stats_0 "connect empty_db" world_blank "''dsn''" attempt_1] h
  obtain d' where
    "ingest_one_file sample_env ''dsn'' batch_1 attempt_1 world_blank =
       (Inr \<lparr>s_name = path_name batch_1,
             s_stats = \<lparr>rows_in_file = 0, rows_loaded = 0, rows_deduped = 0\<rparr>,
             s_archived = archive_dest batch_1\<rparr>,
        \<lparr>disk = d',
         database = (database world_blank)\<lparr>ingestion_runs :=
           ingestion_runs (database world_blank) @
             [success_run attempt_1 batch_1
                \<lparr>rows_in_file = 0, rows_loaded = 0, rows_deduped = 0\<rparr>]\<rparr>\<rparr>)"
    "node_at d' (archive_dest batch_1) = Some (File batch_blank)"
    "node_at d' batch_1 = None"
    by blast
  moreover
  from C9_blank_lines [of sample_env batch_ABA "connect empty_db" 0 0 "staged batch_ABA"
      batch_1 stats_ABA conn_ABA world_ABA "''dsn''" attempt_1] sample_staged(1) sample_load_ABA
  have "rows_in_file stats_ABA = int (length (records batch_ABA))" by blast
  ultimately have
    "rows_in_file stats_ABA = int (length (records batch_ABA))"
    "fst (ingest_one_file sample_env ''dsn'' batch_1 attempt_1 world_blank) =
       Inr \<lparr>s_name = ''events_1.jsonl'', s_stats = stats_0,
            s_archived = ARCHIVE_DIR @ [''events_1.jsonl'']\<rparr>"
    "database (snd (ingest_one_file sample_env ''dsn'' batch_1 attempt_1 world_blank)) =
       \<lparr>raw_events = [], ingestion_runs = [success_run attempt_1 batch_1 stats_0]\<rparr>"
    "node_at (disk (snd (ingest_one_file sample_env ''dsn'' batch_1 attempt_1 world_blank)))
       (archive_dest batch_1) = Some (File batch_blank)"
    "node_at (disk (snd (ingest_one_file sample_env ''dsn'' batch_1 attempt_1 world_blank)))
       batch_1 = None"
    by (simp_all add: sample_paths(1,3) stats_0_def world_blank_def empty_db_def)
  with h sample_staged(1) [of batch_ABA] sample_load_ABA show ?thesis
    by blast
qed

subsection \<open>C10: one transaction, one commit\<close>

text \<open>
  Claim C10. The inserts of the data rows and the insert of the success run record of a
  batch are committed together, by one commit after both: a success run record is
  visible in the store if and only if the newly inserted Events of the batch are, and
  after an error before the commit neither is visible.

  The transaction block ends in one of two ways. Either it raises, and the committed
  database is the one it started from; or it returns the counts, and the committed
  database is the old one with \<^verbatim>\<open>rows_loaded\<close> rows appended to \<^verbatim>\<open>raw_events\<close> and the
  success run record appended to \<^verbatim>\<open>ingestion_runs\<close>. Before the commit nothing is
  visible: neither \<^verbatim>\<open>load_jsonl_file\<close> nor \<^verbatim>\<open>insert_ingestion_run\<close> changes what is committed.
\<close>

theorem C10_single_commit:
  "(load_and_record env dsn p a d b = (res, b') \<longrightarrow>
      (case res of
         Inl e \<Rightarrow> b' = b
       | Inr stats \<Rightarrow>
           (\<exists>new. raw_events b' = raw_events b @ new \<and> int (length new) = rows_loaded stats) \<and>
           ingestion_runs b' = ingestion_runs b @ [success_run a p stats])) \<and>
   store (snd (load_jsonl_file env d c p)) = store c \<and>
   store (snd (insert_ingestion_run c rid fname started finished st_counts st err)) = store c"
proof -
  have "case res of
         Inl e \<Rightarrow> b' = b
       | Inr stats \<Rightarrow>
           (\<exists>new. raw_events b' = raw_events b @ new \<and> int (length new) = rows_loaded stats) \<and>
           ingestion_runs b' = ingestion_runs b @ [success_run a p stats]"
    if run: "load_and_record env dsn p a d b = (res, b')"
  proof (cases res)
    case (Inl e)
    with run show ?thesis by (auto dest: load_and_record_failure)
  next
    case (Inr stats)
    with run obtain c1 where
      load: "load_jsonl_file env d (connect b) p = (Inr stats, c1)" and
      b': "b' = (txn c1)\<lparr>ingestion_runs := ingestion_runs (txn c1) @ [success_run a p stats]\<rparr>"
      by (auto elim: load_and_record_success)
    from load obtain ls n_in n_loaded where
      ll: "load_lines env ls (connect b) 0 0 = (Inr (n_in, n_loaded), c1)" and
      s: "stats = \<lparr>rows_in_file = n_in, rows_loaded = n_loaded, rows_deduped = n_in - n_loaded\<rparr>"
      by (rule load_jsonl_file_success)
    from load_lines_rows [OF ll] obtain new where
      new: "raw_events (txn c1) = raw_events b @ new" and
      runs: "ingestion_runs (txn c1) = ingestion_runs b"
      by (auto simp: connect_def prefix_def)
    from load_lines_new_rows [OF ll] new have "int (length new) = n_loaded"
      by (simp add: connect_def)
    with new runs b' s Inr show ?thesis by simp
  qed
  then show ?thesis
    by (simp add: load_jsonl_file_store insert_ingestion_run_store)
qed

theorem C10_witness:
  "load_and_record sample_env ''dsn'' batch_1 attempt_1 (staged batch_ABA) empty_db =
     (Inr stats_ABA, db_ABA) \<and>
   raw_events db_ABA = raw_events empty_db @ [row_A, row_B] \<and>
   int (length [row_A, row_B]) = rows_loaded stats_ABA \<and>
   ingestion_runs db_ABA =
     ingestion_runs empty_db @ [success_run attempt_1 batch_1 stats_ABA] \<and>
   store (snd (load_jsonl_file sample_env (staged batch_ABA) (connect empty_db) batch_1)) =
     store (connect empty_db)"
proof -
  from C10_single_commit [of sample_env "''dsn''" batch_1 attempt_1 "staged batch_ABA" empty_db
      "Inr stats_ABA" db_ABA "connect empty_db"]
  have "store (snd (load_jsonl_file sample_env (staged batch_ABA) (connect empty_db) batch_1)) =
     store (connect empty_db)"
    by blast
  moreover have "raw_events db_ABA = raw_events empty_db @ [row_A, row_B]"
    "int (length [row_A, row_B]) = rows_loaded stats_ABA"
    "ingestion_runs db_ABA =
       ingestion_runs empty_db @ [success_run attempt_1 batch_1 stats_ABA]"
    by (simp_all add: db_ABA_def empty_db_def stats_ABA_def)
  ultimately show ?thesis
    using sample_record_ABA [of "''dsn''"] by blast
qed

end
